theory Spec2Isabelle
  imports Complex_Main
begin

section \<open>Dire Wolf \<open>latlong.c\<close>: latitude and longitude codecs\<close>

text \<open>
  A shallow embedding of \<^verbatim>\<open>src/latlong.c\<close>. Each of the ten C functions of the file
  is one definition with the same name, and the statements of a function body appear in
  the definition in the order of the source, as a chain of \<open>let\<close> bindings. Three
  fragments are definitions of their own, used by the functions they come from: the
  scaled integer of the compressed encoders and the two blocks that blank the digits of
  a position with ambiguity.

  Conventions of the embedding.

  \<^item> A C \<^verbatim>\<open>double\<close> is the real number it stands for: there is no NaN, no infinity
    and no negative zero. In the compressed encoders, whose digits depend on the last
    bit, every operation on doubles rounds its exact result to the nearest double. In
    the other functions arithmetic is exact, and the closed examples that refute a
    claim about them use inputs on which the arithmetic of doubles is exact as well.
  \<^item> A C \<^verbatim>\<open>int\<close> is an integer; every \<^verbatim>\<open>int\<close> that the encoders compute lies
    between 0 and 68566680, inside the 32-bit range.
  \<^item> A C string is the list of its characters before the terminating NUL; where a
    function reads at a fixed index, whatever the length of the string, the list holds
    the bytes in memory from the pointer on. An output buffer is a result of the
    function.
  \<^item> The console that receives the warnings is an explicit state, passed in and
    returned.
  \<^item> The constant \<^verbatim>\<open>G_UNKNOWN\<close> of \<^verbatim>\<open>latlong.h\<close> is a parameter of the functions
    that mention it.
  \<^item> The functions of the C library are models of what the C standard and the GNU C
    library specify for them, in the C locale.
\<close>

subsection \<open>The diagnostic console (\<^verbatim>\<open>textcolor.h\<close>)\<close>

datatype dw_color = DW_COLOR_ERROR

datatype console_event = Color dw_color | Printed string

type_synonym console = "console_event list"

text \<open>
  Modelled from the spec: \<^verbatim>\<open>text_color_set\<close> and \<^verbatim>\<open>dw_printf\<close> live in
  \<^verbatim>\<open>textcolor.c\<close>, which is not among the sources. The spec describes the sink as an
  operation that receives a message, returns nothing and never fails the caller; the
  console is therefore the trace of the calls made so far.
\<close>

definition text_color_set :: "dw_color \<Rightarrow> console \<Rightarrow> console" where
  "text_color_set c con = con @ [Color c]"

definition dw_printf :: "string \<Rightarrow> console \<Rightarrow> console" where
  "dw_printf msg con = con @ [Printed msg]"

subsection \<open>C arithmetic\<close>

text \<open>The conversion \<^verbatim>\<open>(int)x\<close> of a double discards the fractional part.\<close>

definition c_int :: "real \<Rightarrow> int" where
  "c_int x = (if 0 \<le> x then \<lfloor>x\<rfloor> else \<lceil>x\<rceil>)"

text \<open>\<^verbatim>\<open>round\<close> of \<^verbatim>\<open>math.h\<close>: the nearest integer, halfway cases away from zero.\<close>

definition c_round :: "real \<Rightarrow> real" where
  "c_round x = (if 0 \<le> x then of_int \<lfloor>x + 1 / 2\<rfloor> else of_int \<lceil>x - 1 / 2\<rceil>)"

text \<open>Integer division of C truncates toward zero.\<close>

definition c_div :: "int \<Rightarrow> int \<Rightarrow> int" where
  "c_div a b = sgn a * sgn b * (\<bar>a\<bar> div \<bar>b\<bar>)"

text \<open>
  Rounding to an integer, halfway cases to the even neighbour: the rounding of the
  arithmetic of doubles, and what the C library does with the exact value of a double
  when it prints fewer digits than the value has.
\<close>

definition round_half_even :: "real \<Rightarrow> int" where
  "round_half_even x =
     (let f = \<lfloor>x\<rfloor>; r = x - of_int f
      in if r < 1 / 2 then f else if 1 / 2 < r then f + 1 else if even f then f else f + 1)"

subsection \<open>Arithmetic of doubles\<close>

text \<open>
  The binary exponent of a positive number: \<open>2 powi expo x \<le> x < 2 powi (expo x + 1)\<close>.
  The function halves or doubles its argument until it lies between 1 and 2.
\<close>

definition expo_measure :: "real \<Rightarrow> nat" where
  "expo_measure x =
     (if 2 \<le> x then nat \<lceil>x\<rceil> else if 0 < x \<and> x < 1 then nat \<lceil>1 / x\<rceil> + 1 else 0)"

function expo :: "real \<Rightarrow> int" where
  "expo x =
     (if x \<le> 0 then 0
      else if 2 \<le> x then expo (x / 2) + 1
      else if x < 1 then expo (2 * x) - 1
      else 0)"
  by pat_completeness auto
termination
proof (relation "measure expo_measure")
  show "wf (measure expo_measure)" by simp
next
  fix x :: real
  assume "\<not> x \<le> 0" and x: "2 \<le> x"
  have "\<lceil>x / 2\<rceil> \<le> \<lceil>x - 1\<rceil>" using x by (intro ceiling_mono) simp
  then have "\<lceil>x / 2\<rceil> < \<lceil>x\<rceil>" by simp
  moreover have "0 < \<lceil>x\<rceil>" using x by simp
  ultimately have "expo_measure (x / 2) < expo_measure x"
    using x by (simp add: expo_measure_def)
  then show "(x / 2, x) \<in> measure expo_measure" by simp
next
  fix x :: real
  assume "\<not> x \<le> 0" and "\<not> 2 \<le> x" and "x < 1"
  then have x: "0 < x" "x < 1" by simp_all
  have "expo_measure (2 * x) < expo_measure x"
  proof (cases "2 * x < 1")
    case True
    then have y: "2 < 1 / x" using x by (simp add: field_simps)
    have "1 / (2 * x) \<le> 1 / x - 1" using y x by (simp add: field_simps)
    then have "\<lceil>1 / (2 * x)\<rceil> \<le> \<lceil>1 / x - 1\<rceil>" by (rule ceiling_mono)
    then have "\<lceil>1 / (2 * x)\<rceil> < \<lceil>1 / x\<rceil>" by simp
    moreover have "0 < \<lceil>1 / x\<rceil>" using x by simp
    ultimately show ?thesis using x True by (simp add: expo_measure_def)
  next
    case False
    then show ?thesis using x by (simp add: expo_measure_def)
  qed
  then show "(2 * x, x) \<in> measure expo_measure" by simp
qed

declare expo.simps [simp del]

text \<open>
  The result of an operation on doubles is its exact result rounded to the nearest
  double, halfway cases to the even significand: a double has 53 significant bits, and
  its last bit is worth at least \<open>2 powi (- 1074)\<close>. Results beyond the largest double
  do not occur in this file.
\<close>

definition ulp_exp :: "real \<Rightarrow> int" where
  "ulp_exp x = max (expo \<bar>x\<bar> - 52) (- 1074)"

definition to_double :: "real \<Rightarrow> real" where
  "to_double x = of_int (round_half_even (x * 2 powi (- ulp_exp x))) * 2 powi ulp_exp x"

subsection \<open>Formatted output (\<^verbatim>\<open>stdio.h\<close>)\<close>

text \<open>The character of a decimal digit, \<^verbatim>\<open>'0' + d\<close>.\<close>

definition digit_char :: "nat \<Rightarrow> char" where
  "digit_char d = char_of (48 + d)"

text \<open>The decimal digits of a natural number, without leading zeros.\<close>

fun dec_digits :: "nat \<Rightarrow> string" where
  "dec_digits n =
     (if n < 10 then [digit_char n] else dec_digits (n div 10) @ [digit_char (n mod 10)])"

declare dec_digits.simps [simp del]

text \<open>The flag \<^verbatim>\<open>0\<close> of a conversion: zeros on the left, up to the field width.\<close>

definition zero_pad :: "nat \<Rightarrow> string \<Rightarrow> string" where
  "zero_pad w s = replicate (w - length s) (CHR ''0'') @ s"

text \<open>
  \<^verbatim>\<open>sprintf\<close> with the conversion \<^verbatim>\<open>%0wd\<close>: the sign, if any, comes before the
  padding.
\<close>

definition sprintf_d :: "nat \<Rightarrow> int \<Rightarrow> string" where
  "sprintf_d w n =
     (if n < 0 then CHR ''-'' # zero_pad (w - 1) (dec_digits (nat (- n)))
      else zero_pad w (dec_digits (nat n)))"

text \<open>
  \<^verbatim>\<open>sprintf\<close> with the conversion \<^verbatim>\<open>%0w.pf\<close> for \<open>p > 0\<close>: the value rounded to
  \<open>p\<close> decimals, integer part, point, \<open>p\<close> decimals, padded with zeros to \<open>w\<close>
  characters.
\<close>

definition sprintf_f :: "nat \<Rightarrow> nat \<Rightarrow> real \<Rightarrow> string" where
  "sprintf_f w p x =
     (let n = nat (round_half_even (\<bar>x\<bar> * 10 ^ p));
          body = dec_digits (n div 10 ^ p) @ CHR ''.'' # zero_pad p (dec_digits (n mod 10 ^ p))
      in if x < 0 then CHR ''-'' # zero_pad (w - 1) body else zero_pad w body)"

subsection \<open>Character classes (\<^verbatim>\<open>ctype.h\<close>, C locale)\<close>

definition isdigit :: "char \<Rightarrow> bool" where
  "isdigit c = (48 \<le> (of_char c :: nat) \<and> (of_char c :: nat) \<le> 57)"

definition isspace :: "char \<Rightarrow> bool" where
  "isspace c =
     (c = CHR '' '' \<or> c = CHR 0x09 \<or> c = CHR ''\<newline>'' \<or> c = CHR 0x0B \<or> c = CHR 0x0C \<or>
      c = CHR 0x0D)"

definition isxdigit :: "char \<Rightarrow> bool" where
  "isxdigit c =
     (isdigit c \<or> (97 \<le> (of_char c :: nat) \<and> (of_char c :: nat) \<le> 102) \<or>
      (65 \<le> (of_char c :: nat) \<and> (of_char c :: nat) \<le> 70))"

subsection \<open>Characters and strings of C\<close>

text \<open>
  The value of a \<^verbatim>\<open>char\<close> in integer arithmetic; plain \<^verbatim>\<open>char\<close> is taken as
  signed, as on x86. No claim below depends on the choice.
\<close>

definition c_char :: "char \<Rightarrow> int" where
  "c_char c = (if (of_char c :: int) < 128 then of_char c else of_char c - 256)"

text \<open>
  A \<^verbatim>\<open>char *\<close> argument is the list of the bytes in memory from the pointer on: the
  characters of the string and, where a function reads further, the terminating NUL
  and the bytes that follow it (in Dire Wolf the next fields of the same NMEA
  sentence). The memory past the end of the list reads as NUL, so a list without a
  NUL is a string with its terminator, and \<^verbatim>\<open>s[i]\<close> has a value at every index. A
  function reads finitely many bytes, so every run of the code is the run of the model
  on a list that holds them.
\<close>

definition c_str_at :: "string \<Rightarrow> nat \<Rightarrow> char" where
  "c_str_at s i = (if i < length s then s ! i else CHR 0x00)"

subsection \<open>Conversion of text to a number (\<^verbatim>\<open>stdlib.h\<close>)\<close>

text \<open>
  \<^verbatim>\<open>atof\<close> is \<^verbatim>\<open>strtod\<close> without the end pointer: white space, an optional sign,
  then the longest prefix that is a decimal number (digits with an optional point and
  an optional exponent \<^verbatim>\<open>e\<close>) or a hexadecimal one (\<^verbatim>\<open>0x\<close>, hexadecimal digits with
  an optional point and an optional binary exponent \<^verbatim>\<open>p\<close>); 0 when there is no such
  prefix. The result is the exact value of the text. The spellings of infinity and NaN
  have no value among the reals and are read as text without a number; the decoders
  never pass them, since they call \<^verbatim>\<open>atof\<close> on text whose third character is the
  decimal point.
\<close>

definition digit_value :: "char \<Rightarrow> nat" where
  "digit_value c =
     (if isdigit c then of_char c - 48
      else if 97 \<le> (of_char c :: nat) then of_char c - 87 else of_char c - 55)"

definition digits_value :: "nat \<Rightarrow> string \<Rightarrow> nat" where
  "digits_value b ds = foldl (\<lambda>n c. n * b + digit_value c) 0 ds"

definition take_sign :: "string \<Rightarrow> bool \<times> string" where
  "take_sign s =
     (case s of
        [] \<Rightarrow> (False, s)
      | c # cs \<Rightarrow>
          if c = CHR ''-'' then (True, cs) else if c = CHR ''+'' then (False, cs) else (False, s))"

text \<open>
  The digits of a number in base \<open>b\<close>, with an optional point: its value and the rest
  of the text, or nothing when there is no digit.
\<close>

definition mantissa :: "nat \<Rightarrow> (char \<Rightarrow> bool) \<Rightarrow> string \<Rightarrow> (real \<times> string) option" where
  "mantissa b isd s =
     (let ip = takeWhile isd s;
          r = dropWhile isd s;
          (fp, r) =
            (case r of
               [] \<Rightarrow> ([], r)
             | c # cs \<Rightarrow>
                 if c = CHR ''.'' then (takeWhile isd cs, dropWhile isd cs) else ([], r))
      in if ip = [] \<and> fp = [] then None
         else Some (real (digits_value b (ip @ fp)) / real (b ^ length fp), r))"

text \<open>
  The exponent after the marker \<open>lo\<close> or \<open>up\<close>: an optional sign and at least one
  decimal digit; 0 when the text has no exponent.
\<close>

definition exponent_part :: "char \<Rightarrow> char \<Rightarrow> string \<Rightarrow> int" where
  "exponent_part lo up s =
     (case s of
        [] \<Rightarrow> 0
      | c # cs \<Rightarrow>
          if c = lo \<or> c = up then
            (let (neg, r) = take_sign cs;
                 ds = takeWhile isdigit r
             in if ds = [] then 0
                else if neg then - int (digits_value 10 ds) else int (digits_value 10 ds))
          else 0)"

definition strtod_decimal :: "string \<Rightarrow> real" where
  "strtod_decimal s =
     (case mantissa 10 isdigit s of
        None \<Rightarrow> 0
      | Some (m, r) \<Rightarrow> m * 10 powi exponent_part (CHR ''e'') (CHR ''E'') r)"

definition strtod_unsigned :: "string \<Rightarrow> real" where
  "strtod_unsigned s =
     (if take 2 s = ''0x'' \<or> take 2 s = ''0X'' then
        (case mantissa 16 isxdigit (drop 2 s) of
           None \<Rightarrow> strtod_decimal s
         | Some (m, r) \<Rightarrow> m * 2 powi exponent_part (CHR ''p'') (CHR ''P'') r)
      else strtod_decimal s)"

definition atof :: "string \<Rightarrow> real" where
  "atof s =
     (let (neg, r) = take_sign (dropWhile isspace s);
          v = strtod_unsigned r
      in if neg then - v else v)"

text \<open>
  The texts that \<^verbatim>\<open>strtod\<close> reads as an infinity or a NaN: after white space and a
  sign, the letters \<^verbatim>\<open>inf\<close> or \<^verbatim>\<open>nan\<close> in either case.
\<close>

definition tolower :: "char \<Rightarrow> char" where
  "tolower c =
     (if 65 \<le> (of_char c :: nat) \<and> (of_char c :: nat) \<le> 90 then char_of (of_char c + 32 :: nat)
      else c)"

definition spells_inf_or_nan :: "string \<Rightarrow> bool" where
  "spells_inf_or_nan s =
     (let r = snd (take_sign (dropWhile isspace s))
      in map tolower (take 3 r) = ''inf'' \<or> map tolower (take 3 r) = ''nan'')"

subsection \<open>Compressed (base 91) encoders\<close>

text \<open>
  Line 218 and line 264: the scaled integer that is split into four digits. The
  difference (the sum) and the product are operations on doubles, and each of them
  rounds; \<^verbatim>\<open>round\<close> and the conversion to \<^verbatim>\<open>int\<close> are exact.
\<close>

definition latitude_comp_scaled :: "real \<Rightarrow> int" where
  "latitude_comp_scaled dlat = c_int (c_round (to_double (380926 * to_double (90 - dlat))))"

definition longitude_comp_scaled :: "real \<Rightarrow> int" where
  "longitude_comp_scaled dlong =
     c_int (c_round (to_double (190463 * to_double (180 + dlong))))"

definition latitude_to_comp_str :: "real \<Rightarrow> console \<Rightarrow> string \<times> console" where
  "latitude_to_comp_str dlat0 con0 =
    (let (dlat1, con1) =
           (if dlat0 < - 90
            then (- 90, dw_printf ''Latitude is less than -90.  Changing to -90.n''
                          (text_color_set DW_COLOR_ERROR con0))
            else (dlat0, con0));
         (dlat, con) =
           (if dlat1 > 90
            then (90, dw_printf ''Latitude is greater than 90.  Changing to 90.n''
                        (text_color_set DW_COLOR_ERROR con1))
            else (dlat1, con1));
         y = latitude_comp_scaled dlat;
         y0 = c_div y (91 * 91 * 91);
         y = y - y0 * (91 * 91 * 91);
         y1 = c_div y (91 * 91);
         y = y - y1 * (91 * 91);
         y2 = c_div y 91;
         y = y - y2 * 91;
         y3 = y
     in ([char_of (y0 + 33), char_of (y1 + 33), char_of (y2 + 33), char_of (y3 + 33)], con))"

definition longitude_to_comp_str :: "real \<Rightarrow> console \<Rightarrow> string \<times> console" where
  "longitude_to_comp_str dlong0 con0 =
    (let (dlong1, con1) =
           (if dlong0 < - 180
            then (- 180, dw_printf ''Longitude is less than -180.  Changing to -180.n''
                           (text_color_set DW_COLOR_ERROR con0))
            else (dlong0, con0));
         (dlong, con) =
           (if dlong1 > 180
            then (180, dw_printf ''Longitude is greater than 180.  Changing to 180.n''
                         (text_color_set DW_COLOR_ERROR con1))
            else (dlong1, con1));
         x = longitude_comp_scaled dlong;
         x0 = c_div x (91 * 91 * 91);
         x = x - x0 * (91 * 91 * 91);
         x1 = c_div x (91 * 91);
         x = x - x1 * (91 * 91);
         x2 = c_div x 91;
         x = x - x2 * 91;
         x3 = x
     in ([char_of (x0 + 33), char_of (x1 + 33), char_of (x2 + 33), char_of (x3 + 33)], con))"

subsection \<open>Human-readable encoders\<close>

text \<open>
  Lines 101--112 and 175--186, the position ambiguity: the nested conditions that
  overwrite characters of the finished field with spaces.
\<close>

definition latitude_ambiguity :: "int \<Rightarrow> string \<Rightarrow> string" where
  "latitude_ambiguity ambiguity slat =
     (if ambiguity \<ge> 1 then
        (let slat = slat[6 := CHR '' ''] in
         if ambiguity \<ge> 2 then
           (let slat = slat[5 := CHR '' ''] in
            if ambiguity \<ge> 3 then
              (let slat = slat[3 := CHR '' ''] in
               if ambiguity \<ge> 4 then slat[2 := CHR '' ''] else slat)
            else slat)
         else slat)
      else slat)"

definition longitude_ambiguity :: "int \<Rightarrow> string \<Rightarrow> string" where
  "longitude_ambiguity ambiguity slong =
     (if ambiguity \<ge> 1 then
        (let slong = slong[7 := CHR '' ''] in
         if ambiguity \<ge> 2 then
           (let slong = slong[6 := CHR '' ''] in
            if ambiguity \<ge> 3 then
              (let slong = slong[4 := CHR '' ''] in
               if ambiguity \<ge> 4 then slong[3 := CHR '' ''] else slong)
            else slong)
         else slong)
      else slong)"

text \<open>
  The buffer \<^verbatim>\<open>smin\<close> always receives five characters and the result eight (nine for
  longitude), as is proved below, so every index read or written is inside the string.
\<close>

definition latitude_to_str :: "real \<Rightarrow> int \<Rightarrow> console \<Rightarrow> string \<times> console" where
  "latitude_to_str dlat0 ambiguity con0 =
    (let (dlat1, con1) =
           (if dlat0 < - 90
            then (- 90, dw_printf ''Latitude is less than -90.  Changing to -90.n''
                          (text_color_set DW_COLOR_ERROR con0))
            else (dlat0, con0));
         (dlat2, con) =
           (if dlat1 > 90
            then (90, dw_printf ''Latitude is greater than 90.  Changing to 90.n''
                        (text_color_set DW_COLOR_ERROR con1))
            else (dlat1, con1));
         (dlat, hemi) = (if dlat2 < 0 then (- dlat2, CHR ''S'') else (dlat2, CHR ''N''));
         ideg = c_int dlat;
         dmin = (dlat - of_int ideg) * 60;
         smin = sprintf_f 5 2 dmin;
         (smin, ideg) =
           (if smin ! 0 = CHR ''6'' then (smin[0 := CHR ''0''], ideg + 1) else (smin, ideg));
         slat = sprintf_d 2 ideg @ smin @ [hemi];
         slat = latitude_ambiguity ambiguity slat
     in (slat, con))"

definition longitude_to_str :: "real \<Rightarrow> int \<Rightarrow> console \<Rightarrow> string \<times> console" where
  "longitude_to_str dlong0 ambiguity con0 =
    (let (dlong1, con1) =
           (if dlong0 < - 180
            then (- 180, dw_printf ''Longitude is less than -180.  Changing to -180.n''
                           (text_color_set DW_COLOR_ERROR con0))
            else (dlong0, con0));
         (dlong2, con) =
           (if dlong1 > 180
            then (180, dw_printf ''Longitude is greater than 180.  Changing to 180.n''
                         (text_color_set DW_COLOR_ERROR con1))
            else (dlong1, con1));
         (dlong, hemi) = (if dlong2 < 0 then (- dlong2, CHR ''W'') else (dlong2, CHR ''E''));
         ideg = c_int dlong;
         dmin = (dlong - of_int ideg) * 60;
         smin = sprintf_f 5 2 dmin;
         (smin, ideg) =
           (if smin ! 0 = CHR ''6'' then (smin[0 := CHR ''0''], ideg + 1) else (smin, ideg));
         slong = sprintf_d 3 ideg @ smin @ [hemi];
         slong = longitude_ambiguity ambiguity slong
     in (slong, con))"

subsection \<open>NMEA encoders\<close>

text \<open>
  The constant \<^verbatim>\<open>G_UNKNOWN\<close> is defined in \<^verbatim>\<open>latlong.h\<close>, which is not among the
  sources: the functions that mention it take its value as their first argument. The
  results are the two output strings \<^verbatim>\<open>slat\<close> (or \<^verbatim>\<open>slong\<close>) and \<^verbatim>\<open>hemi\<close>, and
  the console.
\<close>

definition latitude_to_nmea :: "real \<Rightarrow> real \<Rightarrow> console \<Rightarrow> (string \<times> string) \<times> console" where
  "latitude_to_nmea G_UNKNOWN dlat0 con0 =
    (if dlat0 = G_UNKNOWN then (('''', ''''), con0)
     else
      (let (dlat1, con1) =
             (if dlat0 < - 90
              then (- 90, dw_printf ''Latitude is less than -90.  Changing to -90.n''
                            (text_color_set DW_COLOR_ERROR con0))
              else (dlat0, con0));
           (dlat2, con) =
             (if dlat1 > 90
              then (90, dw_printf ''Latitude is greater than 90.  Changing to 90.n''
                          (text_color_set DW_COLOR_ERROR con1))
              else (dlat1, con1));
           (dlat, hemi) = (if dlat2 < 0 then (- dlat2, ''S'') else (dlat2, ''N''));
           ideg = c_int dlat;
           dmin = (dlat - of_int ideg) * 60;
           smin = sprintf_f 7 4 dmin;
           (smin, ideg) =
             (if smin ! 0 = CHR ''6'' then (smin[0 := CHR ''0''], ideg + 1) else (smin, ideg));
           slat = sprintf_d 2 ideg @ smin
       in ((slat, hemi), con)))"

definition longitude_to_nmea :: "real \<Rightarrow> real \<Rightarrow> console \<Rightarrow> (string \<times> string) \<times> console" where
  "longitude_to_nmea G_UNKNOWN dlong0 con0 =
    (if dlong0 = G_UNKNOWN then (('''', ''''), con0)
     else
      (let (dlong1, con1) =
             (if dlong0 < - 180
              then (- 180, dw_printf ''longitude is less than -180.  Changing to -180.n''
                             (text_color_set DW_COLOR_ERROR con0))
              else (dlong0, con0));
           (dlong2, con) =
             (if dlong1 > 180
              then (180, dw_printf ''longitude is greater than 180.  Changing to 180.n''
                           (text_color_set DW_COLOR_ERROR con1))
              else (dlong1, con1));
           (dlong, hemi) = (if dlong2 < 0 then (- dlong2, ''W'') else (dlong2, ''E''));
           ideg = c_int dlong;
           dmin = (dlong - of_int ideg) * 60;
           smin = sprintf_f 7 4 dmin;
           (smin, ideg) =
             (if smin ! 0 = CHR ''6'' then (smin[0 := CHR ''0''], ideg + 1) else (smin, ideg));
           slong = sprintf_d 3 ideg @ smin
       in ((slong, hemi), con)))"

subsection \<open>NMEA decoders\<close>

text \<open>
  The result is the returned double and the console. The decoders read
  \<^verbatim>\<open>pstr[4]\<close> (\<^verbatim>\<open>pstr[5]\<close> for longitude) as soon as the first character is a digit,
  whatever the length of the field: in a field of fewer than 4 (5) characters that is a
  byte after the terminating NUL, and a field with a point there is decoded, its
  minutes being those of the text between index 2 (3) and the NUL.
\<close>

definition latitude_from_nmea ::
  "real \<Rightarrow> string \<Rightarrow> string \<Rightarrow> console \<Rightarrow> real \<times> console" where
  "latitude_from_nmea G_UNKNOWN pstr phemi con0 =
    (if \<not> isdigit (c_str_at pstr 0) then (G_UNKNOWN, con0)
     else if c_str_at pstr 4 \<noteq> CHR ''.'' then (G_UNKNOWN, con0)
     else
      (let lat = of_int ((c_char (c_str_at pstr 0) - c_char (CHR ''0'')) * 10
                   + (c_char (c_str_at pstr 1) - c_char (CHR ''0'')))
                 + atof (drop 2 pstr) / 60;
           con1 =
             (if lat < 0 \<or> lat > 90
              then dw_printf ''Error: Latitude not in range of 0 to 90.\<newline>''
                     (text_color_set DW_COLOR_ERROR con0)
              else con0);
           con2 =
             (if c_str_at phemi 0 \<noteq> CHR ''N'' \<and> c_str_at phemi 0 \<noteq> CHR ''S''
                 \<and> c_str_at phemi 0 \<noteq> CHR 0x00
              then dw_printf ''Error: Latitude hemisphere should be N or S.\<newline>''
                     (text_color_set DW_COLOR_ERROR con1)
              else con1);
           lat = (if c_str_at phemi 0 = CHR ''S'' then - lat else lat)
       in (lat, con2)))"

definition longitude_from_nmea ::
  "real \<Rightarrow> string \<Rightarrow> string \<Rightarrow> console \<Rightarrow> real \<times> console" where
  "longitude_from_nmea G_UNKNOWN pstr phemi con0 =
    (if \<not> isdigit (c_str_at pstr 0) then (G_UNKNOWN, con0)
     else if c_str_at pstr 5 \<noteq> CHR ''.'' then (G_UNKNOWN, con0)
     else
      (let lon = of_int ((c_char (c_str_at pstr 0) - c_char (CHR ''0'')) * 100
                   + (c_char (c_str_at pstr 1) - c_char (CHR ''0'')) * 10
                   + (c_char (c_str_at pstr 2) - c_char (CHR ''0'')))
                 + atof (drop 3 pstr) / 60;
           con1 =
             (if lon < 0 \<or> lon > 180
              then dw_printf ''Error: Longitude not in range of 0 to 180.\<newline>''
                     (text_color_set DW_COLOR_ERROR con0)
              else con0);
           con2 =
             (if c_str_at phemi 0 \<noteq> CHR ''E'' \<and> c_str_at phemi 0 \<noteq> CHR ''W''
                 \<and> c_str_at phemi 0 \<noteq> CHR 0x00
              then dw_printf ''Error: Longitude hemisphere should be E or W.\<newline>''
                     (text_color_set DW_COLOR_ERROR con1)
              else con1);
           lon = (if c_str_at phemi 0 = CHR ''W'' then - lon else lon)
       in (lon, con2)))"

subsection \<open>Quantities named by the claims\<close>

text \<open>
  The clamping of the encoders, as a value: what lines 207--216 (and their copies in
  the other encoders) leave in \<^verbatim>\<open>dlat\<close> and \<^verbatim>\<open>dlong\<close>.
\<close>

definition clamped_latitude :: "real \<Rightarrow> real" where
  "clamped_latitude dlat = (if dlat < - 90 then - 90 else if dlat > 90 then 90 else dlat)"

definition clamped_longitude :: "real \<Rightarrow> real" where
  "clamped_longitude dlong = (if dlong < - 180 then - 180 else if dlong > 180 then 180 else dlong)"

text \<open>
  The reading of a four-byte field that the claims use: the bytes, less 33, as the
  digits of a number in base 91, most significant first.
\<close>

definition base91_value :: "string \<Rightarrow> int" where
  "base91_value bs =
     (of_char (bs ! 0) - 33) * 91 ^ 3 + (of_char (bs ! 1) - 33) * 91 ^ 2
       + (of_char (bs ! 2) - 33) * 91 + (of_char (bs ! 3) - 33)"

text \<open>All bytes of a field lie between two bounds (inclusive).\<close>

definition bytes_within :: "int \<Rightarrow> int \<Rightarrow> string \<Rightarrow> bool" where
  "bytes_within lo hi bs = list_all (\<lambda>b. lo \<le> of_char b \<and> of_char b \<le> hi) bs"

text \<open>
  Lines 89--90 (and their copies): the minutes that remain after the whole degrees of
  a non-negative coordinate are removed.
\<close>

definition minutes_part :: "real \<Rightarrow> real" where
  "minutes_part d = (d - of_int (c_int d)) * 60"

text \<open>
  The minutes of a non-negative coordinate as \<^verbatim>\<open>sprintf\<close> rounds them to \<open>p\<close>
  decimals, counted in units of \<open>10\<^sup>-\<^sup>p\<close> minutes.
\<close>

definition shown_minutes :: "nat \<Rightarrow> real \<Rightarrow> nat" where
  "shown_minutes p a = nat (round_half_even (minutes_part a * 10 ^ p))"

text \<open>The positions of a field that hold a space.\<close>

definition blanks :: "string \<Rightarrow> nat set" where
  "blanks s = set (filter (\<lambda>i. s ! i = CHR '' '') [0..<length s])"

text \<open>
  One field is another with some characters overwritten by spaces: the fields have the
  same length, and each character of the first is a space or the character of the second
  at the same position.
\<close>

definition blanked_from :: "string \<Rightarrow> string \<Rightarrow> bool" where
  "blanked_from t s = list_all2 (\<lambda>x y. x = CHR '' '' \<or> x = y) t s"

text \<open>
  The digits of the minutes in a field \<^verbatim>\<open>ddmm.mm\<close> or \<^verbatim>\<open>dddmm.mm\<close>, named by
  their place value, and where each stands in a field: the places are counted from the
  decimal point, so the same name denotes the same digit in a latitude and in a
  longitude.
\<close>

datatype minute_digit =
  Tens_of_minutes | Units_of_minutes | Tenths_of_minutes | Hundredths_of_minutes

definition point_index :: "string \<Rightarrow> nat" where
  "point_index s = length (takeWhile (\<lambda>c. c \<noteq> CHR ''.'') s)"

fun digit_index :: "string \<Rightarrow> minute_digit \<Rightarrow> nat" where
  "digit_index s Tens_of_minutes = point_index s - 2"
| "digit_index s Units_of_minutes = point_index s - 1"
| "digit_index s Tenths_of_minutes = point_index s + 1"
| "digit_index s Hundredths_of_minutes = point_index s + 2"

text \<open>The decimal digit at a place of the minutes, in a count of hundredths of minutes.\<close>

fun digit_of :: "minute_digit \<Rightarrow> nat \<Rightarrow> nat" where
  "digit_of Tens_of_minutes m = m div 1000 mod 10"
| "digit_of Units_of_minutes m = m div 100 mod 10"
| "digit_of Tenths_of_minutes m = m div 10 mod 10"
| "digit_of Hundredths_of_minutes m = m mod 10"

text \<open>
  The digits that an ambiguity level blanks, as the code does it: the hundredths from
  level 1, the tenths from level 2, the units of minutes from level 3 and the tens of
  minutes from level 4.
\<close>

definition level_digits :: "int \<Rightarrow> minute_digit set" where
  "level_digits k =
     (if 1 \<le> k then {Hundredths_of_minutes} else {}) \<union>
     (if 2 \<le> k then {Tenths_of_minutes} else {}) \<union>
     (if 3 \<le> k then {Units_of_minutes} else {}) \<union>
     (if 4 \<le> k then {Tens_of_minutes} else {})"

text \<open>
  The same table in the words of claim C2, which has the tens of minutes at level 3 and
  the units of minutes at level 4.
\<close>

definition claimed_level_digits :: "int \<Rightarrow> minute_digit set" where
  "claimed_level_digits k =
     (if 1 \<le> k then {Hundredths_of_minutes} else {}) \<union>
     (if 2 \<le> k then {Tenths_of_minutes} else {}) \<union>
     (if 3 \<le> k then {Tens_of_minutes} else {}) \<union>
     (if 4 \<le> k then {Units_of_minutes} else {})"

text \<open>
  The whole degrees and the minutes (in units of \<open>10\<^sup>-\<^sup>p\<close> minutes) that a field
  with \<open>p\<close> decimals shows for a non-negative coordinate: the values of lines 89--92
  after the carry of lines 94--97.
\<close>

definition shown_degrees :: "nat \<Rightarrow> real \<Rightarrow> nat" where
  "shown_degrees p a =
     (if shown_minutes p a = 60 * 10 ^ p then nat (c_int a + 1) else nat (c_int a))"

definition shown_carried :: "nat \<Rightarrow> real \<Rightarrow> nat" where
  "shown_carried p a = (if shown_minutes p a = 60 * 10 ^ p then 0 else shown_minutes p a)"

text \<open>
  Line 444 and line 506: the magnitude that the decoders compute from the numeric field,
  before the hemisphere is looked at.
\<close>

definition latitude_field_value :: "string \<Rightarrow> real" where
  "latitude_field_value pstr =
     of_int ((c_char (c_str_at pstr 0) - c_char (CHR ''0'')) * 10
       + (c_char (c_str_at pstr 1) - c_char (CHR ''0'')))
     + atof (drop 2 pstr) / 60"

definition longitude_field_value :: "string \<Rightarrow> real" where
  "longitude_field_value pstr =
     of_int ((c_char (c_str_at pstr 0) - c_char (CHR ''0'')) * 100
       + (c_char (c_str_at pstr 1) - c_char (CHR ''0'')) * 10
       + (c_char (c_str_at pstr 2) - c_char (CHR ''0'')))
     + atof (drop 3 pstr) / 60"

text \<open>
  A numeric field for \<open>n\<close> whole degrees, written with an exponent: two zeros for
  the degrees, then \<open>60 n\<close> minutes as \<^verbatim>\<open>00.\<close>, the digits of \<open>60 n\<close>, \<^verbatim>\<open>e\<close> and
  the number of those digits. The point is at index 4; with one more leading zero the
  field is one for a longitude.
\<close>

definition exponent_field :: "nat \<Rightarrow> string" where
  "exponent_field n =
     ''0000.'' @ dec_digits (60 * n) @ ''e'' @ dec_digits (length (dec_digits (60 * n)))"

section \<open>Properties\<close>

subsection \<open>Arithmetic helpers\<close>

lemma c_div_nonneg: "0 \<le> a \<Longrightarrow> 0 < b \<Longrightarrow> c_div a b = a div b"
  by (cases "a = 0") (simp_all add: c_div_def)

lemma c_int_c_round_nonneg: "0 \<le> x \<Longrightarrow> c_int (c_round x) = \<lfloor>x + 1 / 2\<rfloor>"
  by (simp add: c_round_def c_int_def)

lemma round_half_even_cases: "round_half_even x = \<lfloor>x\<rfloor> \<or> round_half_even x = \<lfloor>x\<rfloor> + 1"
  by (simp add: round_half_even_def Let_def)

lemma round_half_even_le:
  assumes "x \<le> of_int k"
  shows "round_half_even x \<le> k"
proof (cases "\<lfloor>x\<rfloor> = k")
  case True
  then have "x = of_int k"
    using assms by (metis floor_le_iff le_floor_iff order_antisym of_int_floor_le)
  then show ?thesis by (simp add: round_half_even_def)
next
  case False
  moreover have "\<lfloor>x\<rfloor> \<le> k" using assms by (simp add: floor_le_iff)
  ultimately have "\<lfloor>x\<rfloor> + 1 \<le> k" by simp
  then show ?thesis using round_half_even_cases [of x] by auto
qed

lemma round_half_even_nonneg: "0 \<le> x \<Longrightarrow> 0 \<le> round_half_even x"
  using round_half_even_cases [of x] by (auto simp: zero_le_floor)

lemma round_half_even_error: "\<bar>of_int (round_half_even x) - x\<bar> \<le> 1 / 2"
  unfolding round_half_even_def Let_def by (auto split: if_splits)

subsection \<open>Rounding to a double\<close>

lemma expo_bounds:
  "0 < x \<Longrightarrow> 2 powi expo x \<le> x \<and> x < 2 powi (expo x + 1)"
proof (induction x rule: expo.induct)
  case (1 x)
  show ?case
  proof (cases "2 \<le> x")
    case True
    then have e: "expo x = expo (x / 2) + 1" using 1(3) by (subst expo.simps) simp
    have "2 powi expo (x / 2) \<le> x / 2 \<and> x / 2 < 2 powi (expo (x / 2) + 1)"
      using 1(1) 1(3) True by simp
    then show ?thesis unfolding e by (simp add: power_int_add)
  next
    case False
    show ?thesis
    proof (cases "x < 1")
      case True
      then have e: "expo x = expo (2 * x) - 1" using 1(3) False by (subst expo.simps) simp
      have "2 powi expo (2 * x) \<le> 2 * x \<and> 2 * x < 2 powi (expo (2 * x) + 1)"
        using 1(2) 1(3) True False by simp
      then show ?thesis unfolding e by (simp add: power_int_add power_int_diff)
    next
      case nlt: False
      then have e: "expo x = 0" using 1(3) False by (subst expo.simps) simp
      show ?thesis unfolding e using False nlt by simp
    qed
  qed
qed

lemma expo_less:
  assumes "0 < x" "x < 2 powi k"
  shows "expo x < k"
proof (rule ccontr)
  assume "\<not> expo x < k"
  then have "(2 :: real) powi k \<le> 2 powi expo x" by (intro power_int_increasing) simp_all
  then show False using expo_bounds [OF assms(1)] assms(2) by linarith
qed

lemma ulp_exp_le:
  assumes "\<bar>x\<bar> < 2 powi k" "1 \<le> k"
  shows "ulp_exp x \<le> k - 53"
proof (cases "x = 0")
  case True
  then show ?thesis using assms(2) by (simp add: ulp_exp_def expo.simps)
next
  case False
  then have "expo \<bar>x\<bar> < k" using assms(1) by (intro expo_less) simp_all
  then show ?thesis using assms(2) by (simp add: ulp_exp_def)
qed

lemma to_double_nonneg: "0 \<le> x \<Longrightarrow> 0 \<le> to_double x"
  unfolding to_double_def by (intro mult_nonneg_nonneg) (simp_all add: round_half_even_nonneg)

text \<open>Rounding does not pass a double: here a multiple of a power of two above the last bit.\<close>

lemma to_double_le:
  assumes "x \<le> of_int b * 2 powi j" "ulp_exp x \<le> j"
  shows "to_double x \<le> of_int b * 2 powi j"
proof -
  define u where "u = ulp_exp x"
  have p: "(0 :: real) < 2 powi (- u)" "(0 :: real) < 2 powi u" by simp_all
  have s: "(2 :: real) powi j * 2 powi (- u) = of_int (2 ^ nat (j - u))"
    using assms(2) by (simp add: u_def power_int_add [symmetric] power_int_nonneg_exp)
  have "x * 2 powi (- u) \<le> of_int b * 2 powi j * 2 powi (- u)"
    using assms(1) p(1) by (intro mult_right_mono) simp_all
  also have "\<dots> = of_int (b * 2 ^ nat (j - u))" using s by (simp add: mult.assoc)
  finally have "round_half_even (x * 2 powi (- u)) \<le> b * 2 ^ nat (j - u)"
    by (rule round_half_even_le)
  then have "(of_int (round_half_even (x * 2 powi (- u))) :: real)
      \<le> of_int (b * 2 ^ nat (j - u))"
    by (simp only: of_int_le_iff)
  then have "of_int (round_half_even (x * 2 powi (- u))) * 2 powi u
      \<le> (of_int (b * 2 ^ nat (j - u)) :: real) * 2 powi u"
    using p(2) by (intro mult_right_mono) simp_all
  also have "\<dots> = of_int b * (2 powi j * 2 powi (- u)) * 2 powi u" using s by simp
  also have "\<dots> = of_int b * 2 powi j" by (simp add: power_int_minus field_simps)
  finally show ?thesis by (simp add: to_double_def u_def)
qed

text \<open>The error of rounding is at most half the last bit.\<close>

lemma to_double_error: "\<bar>to_double x - x\<bar> \<le> 2 powi ulp_exp x / 2"
proof -
  define u where "u = ulp_exp x"
  have i: "(2 :: real) powi (- u) * 2 powi u = 1"
    by (simp add: power_int_minus)
  have "to_double x - x =
      (of_int (round_half_even (x * 2 powi (- u))) - x * 2 powi (- u)) * 2 powi u"
    using i by (simp add: to_double_def u_def left_diff_distrib mult.assoc)
  then have "\<bar>to_double x - x\<bar> =
      \<bar>of_int (round_half_even (x * 2 powi (- u))) - x * 2 powi (- u)\<bar> * 2 powi u"
    by (simp add: abs_mult)
  also have "\<dots> \<le> 1 / 2 * 2 powi u"
    by (intro mult_right_mono round_half_even_error) simp
  finally show ?thesis by (simp add: u_def)
qed

text \<open>
  A non-negative double below \<open>2 powi k\<close>, rounded from an exact value that an integer
  bounds, stays within the bound and within \<open>2 powi (k - 54)\<close> of the exact value.
\<close>

lemma to_double_bounded:
  assumes "0 \<le> x" "x \<le> of_int X" "of_int X < (2 :: real) powi k" "1 \<le> k" "k \<le> 53"
  shows "0 \<le> to_double x" "to_double x \<le> of_int X" "\<bar>to_double x - x\<bar> \<le> 2 powi (k - 54)"
proof -
  have "\<bar>x\<bar> < 2 powi k" using assms(1-3) by simp
  then have u: "ulp_exp x \<le> k - 53" using assms(4) by (rule ulp_exp_le)
  show "0 \<le> to_double x" using assms(1) by (rule to_double_nonneg)
  have "to_double x \<le> of_int X * 2 powi 0"
    using assms(2,5) u by (intro to_double_le) simp_all
  then show "to_double x \<le> of_int X" by simp
  have "(2 :: real) powi ulp_exp x \<le> 2 powi (k - 53)"
    using u by (intro power_int_increasing) simp_all
  then have "(2 :: real) powi ulp_exp x / 2 \<le> 2 powi (k - 53) / 2" by simp
  also have "\<dots> = 2 powi (k - 54)"
    using power_int_add [of "2 :: real" "k - 54" 1] by simp
  finally show "\<bar>to_double x - x\<bar> \<le> 2 powi (k - 54)"
    using to_double_error [of x] by linarith
qed

text \<open>
  The scaled integer of the compressed encoders, for a scale \<open>c\<close> and an exact
  difference or sum \<open>x\<close>: it lies in the range of four base-91 digits and within
  \<open>1/2 + 2\<^sup>-\<^sup>2\<^sup>6\<close> of the exact product.
\<close>

lemma comp_scaled_generic:
  fixes c X k :: int and x :: real
  assumes x: "0 \<le> x" "x \<le> of_int X" and X: "of_int X < (2 :: real) powi k" "1 \<le> k" "k \<le> 53"
    and c: "0 \<le> c" "c * X \<le> 68566680" "of_int c * 2 powi (k - 54) \<le> (1 / 2 ^ 27 :: real)"
  defines "n \<equiv> c_int (c_round (to_double (of_int c * to_double x)))"
  shows "0 \<le> n" "n \<le> 68566680" "\<bar>of_int n - of_int c * x\<bar> \<le> 1 / 2 + 1 / 2 ^ 26"
proof -
  define s where "s = to_double x"
  define y where "y = of_int c * s"
  define p where "p = to_double y"
  note sb = to_double_bounded [OF x X, folded s_def]
  have y0: "0 \<le> y" unfolding y_def using c(1) sb(1) by simp
  have "y \<le> of_int c * of_int X" unfolding y_def using c(1) sb(2) by (intro mult_left_mono) simp_all
  also have "\<dots> = of_int (c * X)" by simp
  also have "\<dots> \<le> of_int 68566680" using c(2) by (simp only: of_int_le_iff)
  finally have y1: "y \<le> of_int 68566680" .
  have "(of_int 68566680 :: real) < 2 powi 27" by simp
  note pb = to_double_bounded [OF y0 y1 this, folded p_def]
  have p0: "0 \<le> p" and p1: "p \<le> 68566680" and pe: "\<bar>p - y\<bar> \<le> 1 / 2 ^ 27"
    using pb by (simp_all add: power_int_minus_divide)
  have n: "n = \<lfloor>p + 1 / 2\<rfloor>"
    unfolding n_def s_def [symmetric] y_def [symmetric] p_def [symmetric]
    using p0 by (rule c_int_c_round_nonneg)
  show "0 \<le> n" unfolding n using p0 by simp
  have "p + 1 / 2 < 68566681" using p1 by simp
  then have "\<lfloor>p + 1 / 2\<rfloor> < 68566681" by (simp add: floor_less_iff)
  then show "n \<le> 68566680" unfolding n by simp
  have np: "\<bar>of_int n - p\<bar> \<le> 1 / 2" unfolding n by linarith
  have "\<bar>y - of_int c * x\<bar> = of_int c * \<bar>s - x\<bar>"
    unfolding y_def using c(1) by (simp add: right_diff_distrib [symmetric] abs_mult)
  also have "\<dots> \<le> of_int c * 2 powi (k - 54)"
    using c(1) sb(3) by (intro mult_left_mono) simp_all
  also have "\<dots> \<le> 1 / 2 ^ 27" by (rule c(3))
  finally have ye: "\<bar>y - of_int c * x\<bar> \<le> 1 / 2 ^ 27" .
  have "\<bar>of_int n - of_int c * x\<bar> \<le> \<bar>of_int n - p\<bar> + \<bar>p - y\<bar> + \<bar>y - of_int c * x\<bar>"
    by linarith
  also have "\<dots> \<le> 1 / 2 + 1 / 2 ^ 27 + 1 / 2 ^ 27" using np pe ye by linarith
  also have "\<dots> = 1 / 2 + 1 / 2 ^ 26" by simp
  finally show "\<bar>of_int n - of_int c * x\<bar> \<le> 1 / 2 + 1 / 2 ^ 26" .
qed

text \<open>An integer that close to a number is the rounding of the number or next to it.\<close>

lemma near_rounding:
  fixes n :: int and e :: real
  assumes "0 \<le> e" "\<bar>of_int n - e\<bar> \<le> 1 / 2 + 1 / 2 ^ 26"
  shows "\<bar>n - c_int (c_round e)\<bar> \<le> 1"
proof -
  have r: "c_int (c_round e) = \<lfloor>e + 1 / 2\<rfloor>" using assms(1) by (rule c_int_c_round_nonneg)
  have "\<bar>of_int \<lfloor>e + 1 / 2\<rfloor> - e\<bar> \<le> 1 / 2" by linarith
  moreover have "(1 / 2 ^ 26 :: real) < 1" by simp
  ultimately have "\<bar>of_int n - of_int \<lfloor>e + 1 / 2\<rfloor>\<bar> < (2 :: real)"
    using assms(2) by linarith
  then have "real_of_int \<bar>n - \<lfloor>e + 1 / 2\<rfloor>\<bar> < 2" by simp
  then have "\<bar>n - \<lfloor>e + 1 / 2\<rfloor>\<bar> < 2" by linarith
  then show ?thesis unfolding r by simp
qed

lemma latitude_comp_scaled_bounds:
  assumes "- 90 \<le> d" "d \<le> 90"
  shows "0 \<le> latitude_comp_scaled d" "latitude_comp_scaled d \<le> 68566680"
    "\<bar>of_int (latitude_comp_scaled d) - 380926 * (90 - d)\<bar> \<le> 1 / 2 + 1 / 2 ^ 26"
  using comp_scaled_generic [of "90 - d" 180 8 380926] assms
  by (simp_all add: latitude_comp_scaled_def)

lemma longitude_comp_scaled_bounds:
  assumes "- 180 \<le> d" "d \<le> 180"
  shows "0 \<le> longitude_comp_scaled d" "longitude_comp_scaled d \<le> 68566680"
    "\<bar>of_int (longitude_comp_scaled d) - 190463 * (180 + d)\<bar> \<le> 1 / 2 + 1 / 2 ^ 26"
  using comp_scaled_generic [of "180 + d" 360 9 190463] assms
  by (simp_all add: longitude_comp_scaled_def)

lemma clamped_latitude_range: "- 90 \<le> clamped_latitude d" "clamped_latitude d \<le> 90"
  by (simp_all add: clamped_latitude_def)

lemma clamped_longitude_range: "- 180 \<le> clamped_longitude d" "clamped_longitude d \<le> 180"
  by (simp_all add: clamped_longitude_def)

subsection \<open>The compressed encoders in closed form\<close>

lemma latitude_to_comp_str_unfold:
  "latitude_to_comp_str d con =
     (let y = latitude_comp_scaled (clamped_latitude d) in
      ([char_of (y div 753571 + 33), char_of (y mod 753571 div 8281 + 33),
        char_of (y mod 8281 div 91 + 33), char_of (y mod 91 + 33)],
       if d < - 90 then dw_printf ''Latitude is less than -90.  Changing to -90.n''
                          (text_color_set DW_COLOR_ERROR con)
       else if d > 90 then dw_printf ''Latitude is greater than 90.  Changing to 90.n''
                             (text_color_set DW_COLOR_ERROR con)
       else con))"
proof -
  define y where "y = latitude_comp_scaled (clamped_latitude d)"
  have y: "0 \<le> y"
    unfolding y_def using latitude_comp_scaled_bounds clamped_latitude_range by blast+
  have split: "latitude_to_comp_str d con =
    (let y0 = c_div y (91 * 91 * 91);
         ya = y - y0 * (91 * 91 * 91);
         y1 = c_div ya (91 * 91);
         yb = ya - y1 * (91 * 91);
         y2 = c_div yb 91;
         yc = yb - y2 * 91;
         y3 = yc
     in ([char_of (y0 + 33), char_of (y1 + 33), char_of (y2 + 33), char_of (y3 + 33)],
      if d < - 90 then dw_printf ''Latitude is less than -90.  Changing to -90.n''
                         (text_color_set DW_COLOR_ERROR con)
      else if d > 90 then dw_printf ''Latitude is greater than 90.  Changing to 90.n''
                            (text_color_set DW_COLOR_ERROR con)
      else con))"
    unfolding latitude_to_comp_str_def y_def clamped_latitude_def
    by (simp add: Let_def)
  show ?thesis
    unfolding split y_def[symmetric] using y
    by (simp add: Let_def c_div_nonneg minus_div_mult_eq_mod mod_mod_cancel)
qed

lemma longitude_to_comp_str_unfold:
  "longitude_to_comp_str d con =
     (let x = longitude_comp_scaled (clamped_longitude d) in
      ([char_of (x div 753571 + 33), char_of (x mod 753571 div 8281 + 33),
        char_of (x mod 8281 div 91 + 33), char_of (x mod 91 + 33)],
       if d < - 180 then dw_printf ''Longitude is less than -180.  Changing to -180.n''
                           (text_color_set DW_COLOR_ERROR con)
       else if d > 180 then dw_printf ''Longitude is greater than 180.  Changing to 180.n''
                              (text_color_set DW_COLOR_ERROR con)
       else con))"
proof -
  define x where "x = longitude_comp_scaled (clamped_longitude d)"
  have x: "0 \<le> x"
    unfolding x_def using longitude_comp_scaled_bounds clamped_longitude_range by blast+
  have split: "longitude_to_comp_str d con =
    (let x0 = c_div x (91 * 91 * 91);
         xa = x - x0 * (91 * 91 * 91);
         x1 = c_div xa (91 * 91);
         xb = xa - x1 * (91 * 91);
         x2 = c_div xb 91;
         xc = xb - x2 * 91;
         x3 = xc
     in ([char_of (x0 + 33), char_of (x1 + 33), char_of (x2 + 33), char_of (x3 + 33)],
      if d < - 180 then dw_printf ''Longitude is less than -180.  Changing to -180.n''
                          (text_color_set DW_COLOR_ERROR con)
      else if d > 180 then dw_printf ''Longitude is greater than 180.  Changing to 180.n''
                             (text_color_set DW_COLOR_ERROR con)
      else con))"
    unfolding longitude_to_comp_str_def x_def clamped_longitude_def
    by (simp add: Let_def)
  show ?thesis
    unfolding split x_def[symmetric] using x
    by (simp add: Let_def c_div_nonneg minus_div_mult_eq_mod mod_mod_cancel)
qed

lemma base91_digits_range:
  fixes y :: int
  assumes "0 \<le> y" "y \<le> 68566680"
  shows "0 \<le> y div 753571" "y div 753571 \<le> 90"
    "0 \<le> y mod 753571 div 8281" "y mod 753571 div 8281 \<le> 90"
    "0 \<le> y mod 8281 div 91" "y mod 8281 div 91 \<le> 90"
    "0 \<le> y mod 91" "y mod 91 \<le> 90"
proof -
  show "0 \<le> y div 753571" using assms by (simp add: pos_imp_zdiv_nonneg_iff)
  show "y div 753571 \<le> 90" using assms by simp
  show "0 \<le> y mod 753571 div 8281" by (simp add: pos_imp_zdiv_nonneg_iff)
  have "y mod 753571 < 753571" by simp
  then show "y mod 753571 div 8281 \<le> 90" by simp
  show "0 \<le> y mod 8281 div 91" by (simp add: pos_imp_zdiv_nonneg_iff)
  have "y mod 8281 < 8281" by simp
  then show "y mod 8281 div 91 \<le> 90" by simp
  show "0 \<le> y mod 91" by simp
  have "y mod 91 < 91" by simp
  then show "y mod 91 \<le> 90" by simp
qed

lemma base91_recombine:
  fixes y :: int
  shows "y div 753571 * 753571 + y mod 753571 div 8281 * 8281
           + y mod 8281 div 91 * 91 + y mod 91 = y"
proof -
  have a: "y mod 8281 div 91 * 91 + y mod 91 = y mod 8281"
    using div_mult_mod_eq [of "y mod 8281" 91] by (simp add: mod_mod_cancel)
  have b: "y mod 753571 div 8281 * 8281 + y mod 8281 = y mod 753571"
    using div_mult_mod_eq [of "y mod 753571" 8281] by (simp add: mod_mod_cancel)
  have c: "y div 753571 * 753571 + y mod 753571 = y"
    by simp
  show ?thesis using a b c by linarith
qed

lemma base91_bytes_digits:
  fixes a b c d :: int
  assumes "0 \<le> a" "a \<le> 90" "0 \<le> b" "b \<le> 90" "0 \<le> c" "c \<le> 90" "0 \<le> d" "d \<le> 90"
  shows "base91_value [char_of (a + 33), char_of (b + 33), char_of (c + 33), char_of (d + 33)]
           = a * 753571 + b * 8281 + c * 91 + d"
    and "bytes_within 33 123
           [char_of (a + 33), char_of (b + 33), char_of (c + 33), char_of (d + 33)]"
  using assms by (simp_all add: base91_value_def bytes_within_def)

lemma base91_bytes:
  fixes y :: int
  assumes "0 \<le> y" "y \<le> 68566680"
  defines "bs \<equiv> [char_of (y div 753571 + 33), char_of (y mod 753571 div 8281 + 33),
                   char_of (y mod 8281 div 91 + 33), char_of (y mod 91 + 33)]"
  shows "base91_value bs = y" "bytes_within 33 123 bs"
proof -
  note r = base91_digits_range [OF assms(1,2)]
  show "base91_value bs = y"
    unfolding bs_def base91_bytes_digits(1) [OF r] by (rule base91_recombine)
  show "bytes_within 33 123 bs"
    unfolding bs_def by (rule base91_bytes_digits(2) [OF r])
qed

lemma latitude_comp_bytes:
  "base91_value (fst (latitude_to_comp_str dlat con))
     = latitude_comp_scaled (clamped_latitude dlat)"
  "bytes_within 33 123 (fst (latitude_to_comp_str dlat con))"
  "length (fst (latitude_to_comp_str dlat con)) = 4"
proof -
  have la: "0 \<le> latitude_comp_scaled (clamped_latitude dlat)"
    "latitude_comp_scaled (clamped_latitude dlat) \<le> 68566680"
    using latitude_comp_scaled_bounds clamped_latitude_range by blast+
  show "base91_value (fst (latitude_to_comp_str dlat con))
          = latitude_comp_scaled (clamped_latitude dlat)"
    unfolding latitude_to_comp_str_unfold Let_def fst_conv by (rule base91_bytes(1) [OF la])
  show "bytes_within 33 123 (fst (latitude_to_comp_str dlat con))"
    unfolding latitude_to_comp_str_unfold Let_def fst_conv by (rule base91_bytes(2) [OF la])
  show "length (fst (latitude_to_comp_str dlat con)) = 4"
    unfolding latitude_to_comp_str_unfold Let_def fst_conv by simp
qed

lemma longitude_comp_bytes:
  "base91_value (fst (longitude_to_comp_str dlong con))
     = longitude_comp_scaled (clamped_longitude dlong)"
  "bytes_within 33 123 (fst (longitude_to_comp_str dlong con))"
  "length (fst (longitude_to_comp_str dlong con)) = 4"
proof -
  have lo: "0 \<le> longitude_comp_scaled (clamped_longitude dlong)"
    "longitude_comp_scaled (clamped_longitude dlong) \<le> 68566680"
    using longitude_comp_scaled_bounds clamped_longitude_range by blast+
  show "base91_value (fst (longitude_to_comp_str dlong con))
          = longitude_comp_scaled (clamped_longitude dlong)"
    unfolding longitude_to_comp_str_unfold Let_def fst_conv by (rule base91_bytes(1) [OF lo])
  show "bytes_within 33 123 (fst (longitude_to_comp_str dlong con))"
    unfolding longitude_to_comp_str_unfold Let_def fst_conv by (rule base91_bytes(2) [OF lo])
  show "length (fst (longitude_to_comp_str dlong con)) = 4"
    unfolding longitude_to_comp_str_unfold Let_def fst_conv by simp
qed

text \<open>
  At the poles the subtraction and the product are exact in doubles: the scaled integers
  are 0 and \<open>180 * 380926\<close>.
\<close>

lemmas double_eval = to_double_def ulp_exp_def expo.simps round_half_even_def Let_def

lemma latitude_comp_scaled_poles:
  "latitude_comp_scaled 90 = 0" "latitude_comp_scaled (- 90) = 68566680"
  by (simp_all add: latitude_comp_scaled_def c_int_def c_round_def double_eval)

subsection \<open>Claims about the compressed encoders\<close>

text \<open>
  Claim C10, as amended. For every coordinate, clamped by the encoder to its domain, the
  four bytes of the compressed field are the base-91 digits, most significant first and
  each offset by 33, of the scaled integer \<open>n\<close> that the encoder computes in double
  arithmetic: recombining the bytes gives \<open>n\<close>, and every digit \<open>b - 33\<close> lies in
  \<open>[0, 90]\<close>. The integer \<open>n\<close> is within \<open>1/2 + 2\<^sup>-\<^sup>2\<^sup>6\<close> of the exact
  product \<open>380926 * (90 - lat)\<close> for latitude and \<open>190463 * (180 + lon)\<close> for
  longitude, and at most 1 away from the rounding of the exact product.
\<close>

theorem comp_str_base91_digits:
  "length (fst (latitude_to_comp_str dlat con)) = 4 \<and>
   base91_value (fst (latitude_to_comp_str dlat con))
     = latitude_comp_scaled (clamped_latitude dlat) \<and>
   \<bar>of_int (base91_value (fst (latitude_to_comp_str dlat con)))
      - 380926 * (90 - clamped_latitude dlat)\<bar> \<le> 1 / 2 + 1 / 2 ^ 26 \<and>
   \<bar>base91_value (fst (latitude_to_comp_str dlat con))
      - c_int (c_round (380926 * (90 - clamped_latitude dlat)))\<bar> \<le> 1 \<and>
   bytes_within 33 (33 + 90) (fst (latitude_to_comp_str dlat con)) \<and>
   length (fst (longitude_to_comp_str dlong con)) = 4 \<and>
   base91_value (fst (longitude_to_comp_str dlong con))
     = longitude_comp_scaled (clamped_longitude dlong) \<and>
   \<bar>of_int (base91_value (fst (longitude_to_comp_str dlong con)))
      - 190463 * (180 + clamped_longitude dlong)\<bar> \<le> 1 / 2 + 1 / 2 ^ 26 \<and>
   \<bar>base91_value (fst (longitude_to_comp_str dlong con))
      - c_int (c_round (190463 * (180 + clamped_longitude dlong)))\<bar> \<le> 1 \<and>
   bytes_within 33 (33 + 90) (fst (longitude_to_comp_str dlong con))"
proof -
  note la = latitude_comp_bytes [of dlat con]
  note lo = longitude_comp_bytes [of dlong con]
  note ra = clamped_latitude_range [of dlat]
  note ro = clamped_longitude_range [of dlong]
  have ea: "\<bar>of_int (latitude_comp_scaled (clamped_latitude dlat))
      - 380926 * (90 - clamped_latitude dlat)\<bar> \<le> 1 / 2 + 1 / 2 ^ 26"
    using ra by (intro latitude_comp_scaled_bounds(3)) simp_all
  have eo: "\<bar>of_int (longitude_comp_scaled (clamped_longitude dlong))
      - 190463 * (180 + clamped_longitude dlong)\<bar> \<le> 1 / 2 + 1 / 2 ^ 26"
    using ro by (intro longitude_comp_scaled_bounds(3)) simp_all
  have "0 \<le> 380926 * (90 - clamped_latitude dlat)" using ra by simp
  then have na: "\<bar>latitude_comp_scaled (clamped_latitude dlat)
      - c_int (c_round (380926 * (90 - clamped_latitude dlat)))\<bar> \<le> 1"
    using ea by (rule near_rounding)
  have "0 \<le> 190463 * (180 + clamped_longitude dlong)" using ro by simp
  then have no: "\<bar>longitude_comp_scaled (clamped_longitude dlong)
      - c_int (c_round (190463 * (180 + clamped_longitude dlong)))\<bar> \<le> 1"
    using eo by (rule near_rounding)
  show ?thesis using la lo ea eo na no by simp
qed

text \<open>
  The scaled integer of claim C10 is not always the rounding of the exact product. At
  latitude \<open>0x1.30282958243f9p+3\<close> (9.504902527) the exact product is less than
  \<open>30662675.5\<close>, by about \<open>2 * 10\<^sup>-\<^sup>9\<close>, and rounds to 30662675; the
  product of the doubles is \<open>30662675.5\<close>, and the encoder writes 30662676, the
  field \<open>I_gM\<close>. At longitude \<open>0x1.5e0c0c673e13p+6\<close> (87.51176606479999) the exact
  product rounds to 50951093 and the encoder writes 50951094, the field \<open>dXg-\<close>.
\<close>

theorem comp_str_double_rounding_counterexample:
  "fst (latitude_to_comp_str (5350784434848761 / 562949953421312) []) = ''I_gM'' \<and>
   base91_value (fst (latitude_to_comp_str (5350784434848761 / 562949953421312) []))
     = 30662676 \<and>
   c_int (c_round (380926 * (90 - clamped_latitude (5350784434848761 / 562949953421312))))
     = 30662675 \<and>
   fst (longitude_to_comp_str (384880817421843 / 4398046511104) []) = ''dXg-'' \<and>
   base91_value (fst (longitude_to_comp_str (384880817421843 / 4398046511104) []))
     = 50951094 \<and>
   c_int (c_round (190463 * (180 + clamped_longitude (384880817421843 / 4398046511104))))
     = 50951093"
  by (simp add: latitude_to_comp_str_unfold longitude_to_comp_str_unfold
      clamped_latitude_def clamped_longitude_def latitude_comp_scaled_def
      longitude_comp_scaled_def c_int_def c_round_def base91_value_def char_of_def
      double_eval)

text \<open>
  Claim C3, as amended. The compressed field is a function of the coordinate alone (the
  state of the console does not influence it), and each of its four bytes lies in
  \<open>[33, 123]\<close>: the largest base-91 digit, 90, is written as byte 123, the character
  \<open>{\<close>.
\<close>

theorem comp_str_bytes_33_123:
  "bytes_within 33 123 (fst (latitude_to_comp_str dlat con)) \<and>
   bytes_within 33 123 (fst (longitude_to_comp_str dlong con)) \<and>
   fst (latitude_to_comp_str dlat con) = fst (latitude_to_comp_str dlat con') \<and>
   fst (longitude_to_comp_str dlong con) = fst (longitude_to_comp_str dlong con')"
  using latitude_comp_bytes(2) [of dlat con] longitude_comp_bytes(2) [of dlong con]
  by (simp add: latitude_to_comp_str_unfold longitude_to_comp_str_unfold Let_def)

text \<open>
  The bound 122 of claim C3 fails at the south pole: latitude \<open>-90\<close> is encoded as
  \<open>{{!!\<close>, whose first two bytes are 123.
\<close>

theorem comp_str_byte_123_counterexample:
  "fst (latitude_to_comp_str (- 90) []) = ''{{!!'' \<and>
   \<not> bytes_within 33 122 (fst (latitude_to_comp_str (- 90) []))"
  by (simp add: latitude_to_comp_str_unfold Let_def clamped_latitude_def
      latitude_comp_scaled_poles bytes_within_def char_of_def)

text \<open>
  Claim C4, as amended. Latitude 90 maps to the scaled integer 0 and latitude \<open>-90\<close>
  maps to \<open>180 * 380926 = 68566680 = 90 * 91\<^sup>3 + 90 * 91\<^sup>2\<close>, the largest
  scaled integer of any latitude; the fields are \<open>!!!!\<close> and \<open>{{!!\<close>.
\<close>

theorem latitude_comp_endpoints:
  "latitude_comp_scaled 90 = 0 \<and> latitude_comp_scaled (- 90) = 180 * 380926 \<and>
   latitude_comp_scaled (- 90) = 90 * 91 ^ 3 + 90 * 91 ^ 2 \<and>
   base91_value (fst (latitude_to_comp_str 90 con)) = 0 \<and>
   base91_value (fst (latitude_to_comp_str (- 90) con)) = 68566680 \<and>
   0 \<le> latitude_comp_scaled (clamped_latitude dlat) \<and>
   latitude_comp_scaled (clamped_latitude dlat) \<le> 68566680"
  using latitude_comp_bytes(1) [of 90 con] latitude_comp_bytes(1) [of "- 90" con]
    latitude_comp_scaled_bounds(1,2) [of "clamped_latitude dlat"]
    clamped_latitude_range [of dlat]
  by (simp add: clamped_latitude_def latitude_comp_scaled_poles)

text \<open>
  The upper endpoint of claim C4 is not reached: the scaled integer of latitude
  \<open>-90\<close> is 8280 below \<open>91\<^sup>4 - 1\<close>.
\<close>

theorem latitude_comp_south_pole_counterexample:
  "latitude_comp_scaled (- 90) \<noteq> 91 ^ 4 - 1 \<and>
   (91 ^ 4 - 1) - latitude_comp_scaled (- 90) = 8280"
  by (simp add: latitude_comp_scaled_poles)

subsection \<open>Formatted output in closed form\<close>

lemma digit_char_simps:
  "digit_char 0 = CHR ''0''" "digit_char 1 = CHR ''1''" "digit_char 2 = CHR ''2''"
  "digit_char 3 = CHR ''3''" "digit_char 4 = CHR ''4''" "digit_char 5 = CHR ''5''"
  "digit_char 6 = CHR ''6''" "digit_char 7 = CHR ''7''" "digit_char 8 = CHR ''8''"
  "digit_char 9 = CHR ''9''" "digit_char (Suc 0) = CHR ''1''"
  by code_simp+

lemma of_char_digit_char: "d < 10 \<Longrightarrow> (of_char (digit_char d) :: nat) = 48 + d"
  by (simp add: digit_char_def)

lemma digit_char_eq_iff:
  assumes "d < 10"
  shows "digit_char d = c \<longleftrightarrow> of_char c = 48 + d"
proof
  assume "digit_char d = c"
  then show "of_char c = 48 + d" using of_char_digit_char [OF assms] by simp
next
  assume "of_char c = 48 + d"
  then have "(of_char c :: nat) = of_char (digit_char d)" using of_char_digit_char [OF assms] by simp
  then show "digit_char d = c" by (simp only: of_char_eq_iff)
qed

lemma digit_char_6: "d < 10 \<Longrightarrow> digit_char d = CHR ''6'' \<longleftrightarrow> d = 6"
  by (auto simp add: digit_char_eq_iff)

lemma dec_digits_lt10: "n < 10 \<Longrightarrow> dec_digits n = [digit_char n]"
  by (simp add: dec_digits.simps)

lemma dec_digits_ge10: "10 \<le> n \<Longrightarrow> dec_digits n = dec_digits (n div 10) @ [digit_char (n mod 10)]"
  by (subst dec_digits.simps) simp

lemma replicate_small:
  "replicate 2 c = [c, c]" "replicate 3 c = [c, c, c]" "replicate 4 c = [c, c, c, c]"
  by (simp_all add: numeral_eq_Suc)

lemma div_10_chain:
  fixes n :: nat
  shows "n div 10 div 10 = n div 100" "n div 10 div 100 = n div 1000"
    "n div 100 div 10 = n div 1000" "n div 10 div 1000 = n div 10000"
    "n div 10 div 10000 = n div 100000"
  using div_mult2_eq [of n 10 10] div_mult2_eq [of n 10 100] div_mult2_eq [of n 100 10]
    div_mult2_eq [of n 10 1000] div_mult2_eq [of n 10 10000]
  by simp_all

lemma zero_pad_2:
  assumes "n < 100"
  shows "zero_pad 2 (dec_digits n) = [digit_char (n div 10), digit_char (n mod 10)]"
proof (cases "n < 10")
  case True
  then show ?thesis by (simp add: dec_digits_lt10 zero_pad_def digit_char_simps replicate_small)
next
  case False
  then have "n div 10 < 10" "10 \<le> n" using assms by simp_all
  then show ?thesis by (simp add: dec_digits_ge10 dec_digits_lt10 zero_pad_def)
qed

lemma zero_pad_3:
  assumes "n < 1000"
  shows "zero_pad 3 (dec_digits n) = [digit_char (n div 100), digit_char (n div 10 mod 10), digit_char (n mod 10)]"
proof (cases "n < 10")
  case True
  then show ?thesis by (simp add: dec_digits_lt10 zero_pad_def digit_char_simps replicate_small)
next
  case False
  then have ge: "10 \<le> n" by simp
  have lt: "n div 10 < 100" using assms by simp
  have "zero_pad 3 (dec_digits n) = zero_pad 2 (dec_digits (n div 10)) @ [digit_char (n mod 10)]"
    by (simp add: dec_digits_ge10 [OF ge] zero_pad_def)
  then show ?thesis by (simp add: zero_pad_2 [OF lt] div_10_chain)
qed

lemma zero_pad_4:
  assumes "n < 10000"
  shows "zero_pad 4 (dec_digits n) = [digit_char (n div 1000), digit_char (n div 100 mod 10), digit_char (n div 10 mod 10), digit_char (n mod 10)]"
proof (cases "n < 10")
  case True
  then show ?thesis by (simp add: dec_digits_lt10 zero_pad_def digit_char_simps replicate_small)
next
  case False
  then have ge: "10 \<le> n" by simp
  have lt: "n div 10 < 1000" using assms by simp
  have "zero_pad 4 (dec_digits n) = zero_pad 3 (dec_digits (n div 10)) @ [digit_char (n mod 10)]"
    by (simp add: dec_digits_ge10 [OF ge] zero_pad_def)
  then show ?thesis by (simp add: zero_pad_3 [OF lt] div_10_chain)
qed

lemma zero_pad_append:
  "zero_pad (w + length t) (s @ t) = zero_pad w s @ t"
  by (simp add: zero_pad_def)

lemma minutes_part_range:
  assumes "0 \<le> a"
  shows "0 \<le> minutes_part a" "minutes_part a < 60"
proof -
  have eq: "minutes_part a = (a - of_int \<lfloor>a\<rfloor>) * 60"
    using assms by (simp add: minutes_part_def c_int_def)
  have "0 \<le> a - of_int \<lfloor>a\<rfloor>" "a - of_int \<lfloor>a\<rfloor> < 1" by linarith+
  then show "0 \<le> minutes_part a" "minutes_part a < 60" unfolding eq by simp_all
qed

lemma sprintf_f_5_2:
  assumes "0 \<le> x" and m: "m = nat (round_half_even (x * 100))" and lt: "m < 10000"
  shows "sprintf_f 5 2 x =
    [digit_char (m div 1000), digit_char (m div 100 mod 10), CHR ''.'',
     digit_char (m div 10 mod 10), digit_char (m mod 10)]"
proof -
  have a: "m div 100 < 100" using lt by simp
  have b: "m mod 100 < 100" by simp
  have m': "nat (round_half_even (\<bar>x\<bar> * 10 ^ 2)) = m" using assms by simp
  have pad: "zero_pad 5 (s @ [CHR ''.'', c, d]) = zero_pad 2 s @ [CHR ''.'', c, d]" for s c d
    using zero_pad_append [of 2 "[CHR ''.'', c, d]" s] by simp
  have "sprintf_f 5 2 x = zero_pad 5 (dec_digits (m div 100) @ CHR ''.'' # zero_pad 2 (dec_digits (m mod 100)))"
    unfolding sprintf_f_def m' Let_def using assms(1) by simp
  also have "\<dots> = [digit_char (m div 100 div 10), digit_char (m div 100 mod 10), CHR ''.'',
     digit_char (m mod 100 div 10), digit_char (m mod 100 mod 10)]"
    by (simp only: zero_pad_2 [OF b] pad zero_pad_2 [OF a] append.simps)
  also have "\<dots> = [digit_char (m div 1000), digit_char (m div 100 mod 10), CHR ''.'',
     digit_char (m div 10 mod 10), digit_char (m mod 10)]"
  proof -
    have "m mod 100 div 10 = m div 10 mod 10"
      using mod_mult2_eq [of m 10 10] by simp
    moreover have "m mod 100 mod 10 = m mod 10" by (simp add: mod_mod_cancel)
    ultimately show ?thesis by (simp add: div_10_chain)
  qed
  finally show ?thesis .
qed

lemma sprintf_f_7_4:
  assumes "0 \<le> x" and m: "m = nat (round_half_even (x * 10000))" and lt: "m < 1000000"
  shows "sprintf_f 7 4 x =
    [digit_char (m div 100000), digit_char (m div 10000 mod 10), CHR ''.'',
     digit_char (m div 1000 mod 10), digit_char (m div 100 mod 10),
     digit_char (m div 10 mod 10), digit_char (m mod 10)]"
proof -
  have a: "m div 10000 < 100" using lt by simp
  have b: "m mod 10000 < 10000" by simp
  have m': "nat (round_half_even (\<bar>x\<bar> * 10 ^ 4)) = m" using assms by simp
  have pad: "zero_pad 7 (s @ [CHR ''.'', c, d, e, f]) = zero_pad 2 s @ [CHR ''.'', c, d, e, f]"
    for s c d e f
    using zero_pad_append [of 2 "[CHR ''.'', c, d, e, f]" s] by simp
  have "sprintf_f 7 4 x = zero_pad 7 (dec_digits (m div 10000) @ CHR ''.'' # zero_pad 4 (dec_digits (m mod 10000)))"
    unfolding sprintf_f_def m' Let_def using assms(1) by simp
  also have "\<dots> = [digit_char (m div 10000 div 10), digit_char (m div 10000 mod 10), CHR ''.'',
     digit_char (m mod 10000 div 1000), digit_char (m mod 10000 div 100 mod 10),
     digit_char (m mod 10000 div 10 mod 10), digit_char (m mod 10000 mod 10)]"
    by (simp only: zero_pad_4 [OF b] pad zero_pad_2 [OF a] append.simps)
  also have "\<dots> = [digit_char (m div 100000), digit_char (m div 10000 mod 10), CHR ''.'',
     digit_char (m div 1000 mod 10), digit_char (m div 100 mod 10),
     digit_char (m div 10 mod 10), digit_char (m mod 10)]"
  proof -
    have 1: "m mod 10000 div 1000 = m div 1000 mod 10"
      using mod_mult2_eq [of m 1000 10] by simp
    have 2: "m mod 10000 div 100 mod 10 = m div 100 mod 10"
      using mod_mult2_eq [of m 100 100] by (simp add: mod_mod_cancel)
    have 3: "m mod 10000 div 10 mod 10 = m div 10 mod 10"
      using mod_mult2_eq [of m 10 1000] by (simp add: mod_mod_cancel)
    have 4: "m mod 10000 mod 10 = m mod 10" by (simp add: mod_mod_cancel)
    have 5: "m div 10000 div 10 = m div 100000" using div_mult2_eq [of m 10000 10] by simp
    show ?thesis by (simp add: 1 2 3 4 5)
  qed
  finally show ?thesis .
qed

subsection \<open>The human-readable encoders in closed form\<close>

lemma latitude_to_str_unfold:
  "latitude_to_str d amb con =
    (let a = \<bar>clamped_latitude d\<bar>;
         hemi = (if clamped_latitude d < 0 then CHR ''S'' else CHR ''N'');
         smin = sprintf_f 5 2 (minutes_part a)
     in (latitude_ambiguity amb
           ((if smin ! 0 = CHR ''6'' then sprintf_d 2 (c_int a + 1) @ smin[0 := CHR ''0'']
             else sprintf_d 2 (c_int a) @ smin) @ [hemi]),
         if d < - 90 then dw_printf ''Latitude is less than -90.  Changing to -90.n''
                            (text_color_set DW_COLOR_ERROR con)
         else if d > 90 then dw_printf ''Latitude is greater than 90.  Changing to 90.n''
                               (text_color_set DW_COLOR_ERROR con)
         else con))"
proof -
  consider "d < - 90" | "90 < d" | "- 90 \<le> d" "d \<le> 90" by linarith
  then show ?thesis
  proof cases
    case 1
    then show ?thesis
      by (simp add: latitude_to_str_def clamped_latitude_def minutes_part_def Let_def)
  next
    case 2
    then show ?thesis
      by (simp add: latitude_to_str_def clamped_latitude_def minutes_part_def Let_def)
  next
    case 3
    then show ?thesis
      by (cases "d < 0") (simp_all add: latitude_to_str_def clamped_latitude_def minutes_part_def Let_def)
  qed
qed

lemma sprintf_d_2:
  assumes "0 \<le> n" "n < 100"
  shows "sprintf_d 2 n = [digit_char (nat n div 10), digit_char (nat n mod 10)]"
  using assms by (simp add: sprintf_d_def zero_pad_2)

lemma sprintf_d_3:
  assumes "0 \<le> n" "n < 1000"
  shows "sprintf_d 3 n =
    [digit_char (nat n div 100), digit_char (nat n div 10 mod 10), digit_char (nat n mod 10)]"
  using assms by (simp add: sprintf_d_def zero_pad_3)

lemma shown_minutes_le:
  assumes "0 \<le> a"
  shows "shown_minutes 2 a \<le> 6000" "shown_minutes 4 a \<le> 600000"
proof -
  note r = minutes_part_range [OF assms]
  have "minutes_part a * 10 ^ 2 \<le> of_int 6000" using r by simp
  then have "round_half_even (minutes_part a * 10 ^ 2) \<le> 6000" by (rule round_half_even_le)
  then show "shown_minutes 2 a \<le> 6000" by (simp add: shown_minutes_def)
  have "minutes_part a * 10 ^ 4 \<le> of_int 600000" using r by simp
  then have "round_half_even (minutes_part a * 10 ^ 4) \<le> 600000" by (rule round_half_even_le)
  then show "shown_minutes 4 a \<le> 600000" by (simp add: shown_minutes_def)
qed

lemma smin_2:
  assumes "0 \<le> a"
  defines "m \<equiv> shown_minutes 2 a"
  shows "sprintf_f 5 2 (minutes_part a) =
    [digit_char (m div 1000), digit_char (m div 100 mod 10), CHR ''.'',
     digit_char (m div 10 mod 10), digit_char (m mod 10)]"
proof -
  have "m < 10000" using shown_minutes_le(1) [OF assms(1)] by (simp add: m_def)
  moreover have "m = nat (round_half_even (minutes_part a * 100))"
    by (simp add: m_def shown_minutes_def)
  ultimately show ?thesis
    using minutes_part_range(1) [OF assms(1)] by (simp only: sprintf_f_5_2)
qed

lemma smin_4:
  assumes "0 \<le> a"
  defines "m \<equiv> shown_minutes 4 a"
  shows "sprintf_f 7 4 (minutes_part a) =
    [digit_char (m div 100000), digit_char (m div 10000 mod 10), CHR ''.'',
     digit_char (m div 1000 mod 10), digit_char (m div 100 mod 10),
     digit_char (m div 10 mod 10), digit_char (m mod 10)]"
proof -
  have "m < 1000000" using shown_minutes_le(2) [OF assms(1)] by (simp add: m_def)
  moreover have "m = nat (round_half_even (minutes_part a * 10000))"
    by (simp add: m_def shown_minutes_def)
  ultimately show ?thesis
    using minutes_part_range(1) [OF assms(1)] by (simp only: sprintf_f_7_4)
qed

lemma smin_2_carry:
  assumes "0 \<le> a"
  shows "sprintf_f 5 2 (minutes_part a) ! 0 = CHR ''6'' \<longleftrightarrow> shown_minutes 2 a = 6000"
proof -
  define m where "m = shown_minutes 2 a"
  have le: "m \<le> 6000" using shown_minutes_le(1) [OF assms] by (simp add: m_def)
  then have lt: "m div 1000 < 10" by simp
  have "m div 1000 = 6 \<longleftrightarrow> m = 6000" using le by auto
  then show ?thesis
    unfolding smin_2 [OF assms] m_def [symmetric] using digit_char_6 [OF lt] by simp
qed

lemma smin_4_carry:
  assumes "0 \<le> a"
  shows "sprintf_f 7 4 (minutes_part a) ! 0 = CHR ''6'' \<longleftrightarrow> shown_minutes 4 a = 600000"
proof -
  define m where "m = shown_minutes 4 a"
  have le: "m \<le> 600000" using shown_minutes_le(2) [OF assms] by (simp add: m_def)
  then have lt: "m div 100000 < 10" by simp
  have "m div 100000 = 6 \<longleftrightarrow> m = 600000" using le by auto
  then show ?thesis
    unfolding smin_4 [OF assms] m_def [symmetric] using digit_char_6 [OF lt] by simp
qed

lemma abs_clamped_latitude_range: "0 \<le> \<bar>clamped_latitude d\<bar>" "\<bar>clamped_latitude d\<bar> \<le> 90"
  by (auto simp add: clamped_latitude_def)

lemma abs_clamped_longitude_range: "0 \<le> \<bar>clamped_longitude d\<bar>" "\<bar>clamped_longitude d\<bar> \<le> 180"
  by (auto simp add: clamped_longitude_def)

lemma c_int_range:
  assumes "0 \<le> a" "a \<le> of_int k"
  shows "0 \<le> c_int a" "c_int a \<le> k"
  using assms by (simp_all add: c_int_def floor_le_iff)

lemma latitude_ambiguity_0: "latitude_ambiguity 0 s = s"
  by (simp add: latitude_ambiguity_def)

lemma longitude_ambiguity_0: "longitude_ambiguity 0 s = s"
  by (simp add: longitude_ambiguity_def)

lemma minutes_text_2:
  assumes "0 \<le> a"
  defines "smin \<equiv> sprintf_f 5 2 (minutes_part a)"
  defines "m \<equiv> shown_minutes 2 a"
  shows "(if smin ! 0 = CHR ''6'' then sprintf_d w (c_int a + 1) @ smin[0 := CHR ''0'']
          else sprintf_d w (c_int a) @ smin)
       = (if m = 6000 then sprintf_d w (c_int a + 1) @ ''00.00''
          else sprintf_d w (c_int a) @
            [digit_char (m div 1000), digit_char (m div 100 mod 10), CHR ''.'',
             digit_char (m div 10 mod 10), digit_char (m mod 10)])"
proof (cases "m = 6000")
  case True
  then have "smin = ''60.00''"
    unfolding smin_def smin_2 [OF assms(1)] m_def by (simp add: digit_char_simps)
  then show ?thesis using True by simp
next
  case False
  then have "smin ! 0 \<noteq> CHR ''6''"
    unfolding smin_def m_def using smin_2_carry [OF assms(1)] by simp
  then show ?thesis using False unfolding smin_def m_def by (simp add: smin_2 [OF assms(1)])
qed

lemma minutes_text_4:
  assumes "0 \<le> a"
  defines "smin \<equiv> sprintf_f 7 4 (minutes_part a)"
  defines "m \<equiv> shown_minutes 4 a"
  shows "(if smin ! 0 = CHR ''6'' then sprintf_d w (c_int a + 1) @ smin[0 := CHR ''0'']
          else sprintf_d w (c_int a) @ smin)
       = (if m = 600000 then sprintf_d w (c_int a + 1) @ ''00.0000''
          else sprintf_d w (c_int a) @
            [digit_char (m div 100000), digit_char (m div 10000 mod 10), CHR ''.'',
             digit_char (m div 1000 mod 10), digit_char (m div 100 mod 10),
             digit_char (m div 10 mod 10), digit_char (m mod 10)])"
proof (cases "m = 600000")
  case True
  then have "smin = ''60.0000''"
    unfolding smin_def smin_4 [OF assms(1)] m_def by (simp add: digit_char_simps)
  then show ?thesis using True by simp
next
  case False
  then have "smin ! 0 \<noteq> CHR ''6''"
    unfolding smin_def m_def using smin_4_carry [OF assms(1)] by simp
  then show ?thesis using False unfolding smin_def m_def by (simp add: smin_4 [OF assms(1)])
qed

lemma latitude_to_str_text:
  "fst (latitude_to_str d amb con) =
     latitude_ambiguity amb
       ((if shown_minutes 2 \<bar>clamped_latitude d\<bar> = 6000
         then sprintf_d 2 (c_int \<bar>clamped_latitude d\<bar> + 1) @ ''00.00''
         else sprintf_d 2 (c_int \<bar>clamped_latitude d\<bar>) @
            [digit_char (shown_minutes 2 \<bar>clamped_latitude d\<bar> div 1000),
             digit_char (shown_minutes 2 \<bar>clamped_latitude d\<bar> div 100 mod 10), CHR ''.'',
             digit_char (shown_minutes 2 \<bar>clamped_latitude d\<bar> div 10 mod 10),
             digit_char (shown_minutes 2 \<bar>clamped_latitude d\<bar> mod 10)])
        @ [if clamped_latitude d < 0 then CHR ''S'' else CHR ''N''])"
  unfolding latitude_to_str_unfold Let_def fst_conv
  by (simp only: minutes_text_2 [OF abs_clamped_latitude_range(1)])

lemma longitude_to_str_unfold:
  "longitude_to_str d amb con =
    (let a = \<bar>clamped_longitude d\<bar>;
         hemi = (if clamped_longitude d < 0 then CHR ''W'' else CHR ''E'');
         smin = sprintf_f 5 2 (minutes_part a)
     in (longitude_ambiguity amb
           ((if smin ! 0 = CHR ''6'' then sprintf_d 3 (c_int a + 1) @ smin[0 := CHR ''0'']
             else sprintf_d 3 (c_int a) @ smin) @ [hemi]),
         if d < - 180 then dw_printf ''Longitude is less than -180.  Changing to -180.n''
                             (text_color_set DW_COLOR_ERROR con)
         else if d > 180 then dw_printf ''Longitude is greater than 180.  Changing to 180.n''
                                (text_color_set DW_COLOR_ERROR con)
         else con))"
proof -
  consider "d < - 180" | "180 < d" | "- 180 \<le> d" "d \<le> 180" by linarith
  then show ?thesis
  proof cases
    case 1
    then show ?thesis
      by (simp add: longitude_to_str_def clamped_longitude_def minutes_part_def Let_def)
  next
    case 2
    then show ?thesis
      by (simp add: longitude_to_str_def clamped_longitude_def minutes_part_def Let_def)
  next
    case 3
    then show ?thesis
      by (cases "d < 0")
        (simp_all add: longitude_to_str_def clamped_longitude_def minutes_part_def Let_def)
  qed
qed

lemma latitude_to_nmea_unfold:
  "latitude_to_nmea g d con =
    (if d = g then (('''', ''''), con)
     else
      (let a = \<bar>clamped_latitude d\<bar>;
           smin = sprintf_f 7 4 (minutes_part a)
       in ((if smin ! 0 = CHR ''6'' then sprintf_d 2 (c_int a + 1) @ smin[0 := CHR ''0'']
            else sprintf_d 2 (c_int a) @ smin,
            if clamped_latitude d < 0 then ''S'' else ''N''),
           if d < - 90 then dw_printf ''Latitude is less than -90.  Changing to -90.n''
                              (text_color_set DW_COLOR_ERROR con)
           else if d > 90 then dw_printf ''Latitude is greater than 90.  Changing to 90.n''
                                 (text_color_set DW_COLOR_ERROR con)
           else con)))"
proof -
  consider "d < - 90" | "90 < d" | "- 90 \<le> d" "d \<le> 90" by linarith
  then show ?thesis
  proof cases
    case 1
    then show ?thesis
      by (simp add: latitude_to_nmea_def clamped_latitude_def minutes_part_def Let_def)
  next
    case 2
    then show ?thesis
      by (simp add: latitude_to_nmea_def clamped_latitude_def minutes_part_def Let_def)
  next
    case 3
    then show ?thesis
      by (cases "d < 0")
        (simp_all add: latitude_to_nmea_def clamped_latitude_def minutes_part_def Let_def)
  qed
qed

lemma longitude_to_nmea_unfold:
  "longitude_to_nmea g d con =
    (if d = g then (('''', ''''), con)
     else
      (let a = \<bar>clamped_longitude d\<bar>;
           smin = sprintf_f 7 4 (minutes_part a)
       in ((if smin ! 0 = CHR ''6'' then sprintf_d 3 (c_int a + 1) @ smin[0 := CHR ''0'']
            else sprintf_d 3 (c_int a) @ smin,
            if clamped_longitude d < 0 then ''W'' else ''E''),
           if d < - 180 then dw_printf ''longitude is less than -180.  Changing to -180.n''
                               (text_color_set DW_COLOR_ERROR con)
           else if d > 180 then dw_printf ''longitude is greater than 180.  Changing to 180.n''
                                  (text_color_set DW_COLOR_ERROR con)
           else con)))"
proof -
  consider "d < - 180" | "180 < d" | "- 180 \<le> d" "d \<le> 180" by linarith
  then show ?thesis
  proof cases
    case 1
    then show ?thesis
      by (simp add: longitude_to_nmea_def clamped_longitude_def minutes_part_def Let_def)
  next
    case 2
    then show ?thesis
      by (simp add: longitude_to_nmea_def clamped_longitude_def minutes_part_def Let_def)
  next
    case 3
    then show ?thesis
      by (cases "d < 0")
        (simp_all add: longitude_to_nmea_def clamped_longitude_def minutes_part_def Let_def)
  qed
qed

lemma longitude_to_str_text:
  "fst (longitude_to_str d amb con) =
     longitude_ambiguity amb
       ((if shown_minutes 2 \<bar>clamped_longitude d\<bar> = 6000
         then sprintf_d 3 (c_int \<bar>clamped_longitude d\<bar> + 1) @ ''00.00''
         else sprintf_d 3 (c_int \<bar>clamped_longitude d\<bar>) @
            [digit_char (shown_minutes 2 \<bar>clamped_longitude d\<bar> div 1000),
             digit_char (shown_minutes 2 \<bar>clamped_longitude d\<bar> div 100 mod 10), CHR ''.'',
             digit_char (shown_minutes 2 \<bar>clamped_longitude d\<bar> div 10 mod 10),
             digit_char (shown_minutes 2 \<bar>clamped_longitude d\<bar> mod 10)])
        @ [if clamped_longitude d < 0 then CHR ''W'' else CHR ''E''])"
  unfolding longitude_to_str_unfold Let_def fst_conv
  by (simp only: minutes_text_2 [OF abs_clamped_longitude_range(1)])

lemma latitude_to_nmea_text:
  assumes "d \<noteq> g"
  shows "fst (fst (latitude_to_nmea g d con)) =
       (if shown_minutes 4 \<bar>clamped_latitude d\<bar> = 600000
         then sprintf_d 2 (c_int \<bar>clamped_latitude d\<bar> + 1) @ ''00.0000''
         else sprintf_d 2 (c_int \<bar>clamped_latitude d\<bar>) @
            [digit_char (shown_minutes 4 \<bar>clamped_latitude d\<bar> div 100000),
             digit_char (shown_minutes 4 \<bar>clamped_latitude d\<bar> div 10000 mod 10), CHR ''.'',
             digit_char (shown_minutes 4 \<bar>clamped_latitude d\<bar> div 1000 mod 10),
             digit_char (shown_minutes 4 \<bar>clamped_latitude d\<bar> div 100 mod 10),
             digit_char (shown_minutes 4 \<bar>clamped_latitude d\<bar> div 10 mod 10),
             digit_char (shown_minutes 4 \<bar>clamped_latitude d\<bar> mod 10)])"
  unfolding latitude_to_nmea_unfold Let_def using assms
  by (simp only: if_False fst_conv minutes_text_4 [OF abs_clamped_latitude_range(1)])

lemma longitude_to_nmea_text:
  assumes "d \<noteq> g"
  shows "fst (fst (longitude_to_nmea g d con)) =
       (if shown_minutes 4 \<bar>clamped_longitude d\<bar> = 600000
         then sprintf_d 3 (c_int \<bar>clamped_longitude d\<bar> + 1) @ ''00.0000''
         else sprintf_d 3 (c_int \<bar>clamped_longitude d\<bar>) @
            [digit_char (shown_minutes 4 \<bar>clamped_longitude d\<bar> div 100000),
             digit_char (shown_minutes 4 \<bar>clamped_longitude d\<bar> div 10000 mod 10), CHR ''.'',
             digit_char (shown_minutes 4 \<bar>clamped_longitude d\<bar> div 1000 mod 10),
             digit_char (shown_minutes 4 \<bar>clamped_longitude d\<bar> div 100 mod 10),
             digit_char (shown_minutes 4 \<bar>clamped_longitude d\<bar> div 10 mod 10),
             digit_char (shown_minutes 4 \<bar>clamped_longitude d\<bar> mod 10)])"
  unfolding longitude_to_nmea_unfold Let_def using assms
  by (simp only: if_False fst_conv minutes_text_4 [OF abs_clamped_longitude_range(1)])

lemma isdigit_digit_char: "d < 10 \<Longrightarrow> isdigit (digit_char d)"
  by (simp add: isdigit_def of_char_digit_char)

lemma isdigit_not_special:
  assumes "isdigit c"
  shows "c \<noteq> CHR '' ''" "c \<noteq> CHR ''.''"
  using assms by (auto simp add: isdigit_def)

lemma latitude_ambiguity_list:
  "latitude_ambiguity amb [c0, c1, c2, c3, c4, c5, c6, c7] =
     [c0, c1, if 4 \<le> amb then CHR '' '' else c2, if 3 \<le> amb then CHR '' '' else c3, c4,
      if 2 \<le> amb then CHR '' '' else c5, if 1 \<le> amb then CHR '' '' else c6, c7]"
  by (simp add: latitude_ambiguity_def Let_def)

lemma longitude_ambiguity_list:
  "longitude_ambiguity amb [c0, c1, c2, c3, c4, c5, c6, c7, c8] =
     [c0, c1, c2, if 4 \<le> amb then CHR '' '' else c3, if 3 \<le> amb then CHR '' '' else c4, c5,
      if 2 \<le> amb then CHR '' '' else c6, if 1 \<le> amb then CHR '' '' else c7, c8]"
  by (simp add: longitude_ambiguity_def Let_def)

lemma blanks_iff: "i \<in> blanks s \<longleftrightarrow> i < length s \<and> s ! i = CHR '' ''"
  by (auto simp add: blanks_def)

lemma blanks_Nil: "blanks [] = {}"
  by (simp add: blanks_def)

lemma blanks_Cons: "blanks (c # cs) = (if c = CHR '' '' then {0} else {}) \<union> Suc ` blanks cs"
proof (rule set_eqI)
  fix i
  show "i \<in> blanks (c # cs) \<longleftrightarrow> i \<in> (if c = CHR '' '' then {0} else {}) \<union> Suc ` blanks cs"
    by (cases i) (auto simp add: blanks_iff)
qed

lemma point_index_4:
  assumes "isdigit c0" "isdigit c1" "isdigit c2" "isdigit c3"
  shows "point_index (c0 # c1 # c2 # c3 # CHR ''.'' # cs) = 4"
  using assms isdigit_not_special(2) by (simp add: point_index_def)

lemma point_index_5:
  assumes "isdigit c0" "isdigit c1" "isdigit c2" "isdigit c3" "isdigit c4"
  shows "point_index (c0 # c1 # c2 # c3 # c4 # CHR ''.'' # cs) = 5"
  using assms isdigit_not_special(2) by (simp add: point_index_def)

lemma blanks_latitude_list:
  assumes "isdigit c0" "isdigit c1" "isdigit c2" "isdigit c3" "isdigit c5" "isdigit c6"
    and "h \<noteq> CHR '' ''"
  shows "blanks (latitude_ambiguity amb [c0, c1, c2, c3, CHR ''.'', c5, c6, h]) =
    (if 1 \<le> amb then {6} else {}) \<union> (if 2 \<le> amb then {5} else {}) \<union>
    (if 3 \<le> amb then {3} else {}) \<union> (if 4 \<le> amb then {2} else {})"
  unfolding latitude_ambiguity_list
  using assms isdigit_not_special(1)
  by (auto simp add: blanks_Cons blanks_Nil eval_nat_numeral)


lemma blanks_longitude_list:
  assumes "isdigit c0" "isdigit c1" "isdigit c2" "isdigit c3" "isdigit c4" "isdigit c6"
    "isdigit c7" and "h \<noteq> CHR '' ''"
  shows "blanks (longitude_ambiguity amb [c0, c1, c2, c3, c4, CHR ''.'', c6, c7, h]) =
    (if 1 \<le> amb then {7} else {}) \<union> (if 2 \<le> amb then {6} else {}) \<union>
    (if 3 \<le> amb then {4} else {}) \<union> (if 4 \<le> amb then {3} else {})"
  unfolding longitude_ambiguity_list
  using assms isdigit_not_special(1)
  by (auto simp add: blanks_Cons blanks_Nil eval_nat_numeral)

lemma digit_index_image_4:
  assumes "point_index s = 4"
  shows "digit_index s ` level_digits amb =
    (if 1 \<le> amb then {6} else {}) \<union> (if 2 \<le> amb then {5} else {}) \<union>
    (if 3 \<le> amb then {3} else {}) \<union> (if 4 \<le> amb then {2} else {})"
  using assms by (simp add: level_digits_def)

lemma digit_index_image_5:
  assumes "point_index s = 5"
  shows "digit_index s ` level_digits amb =
    (if 1 \<le> amb then {7} else {}) \<union> (if 2 \<le> amb then {6} else {}) \<union>
    (if 3 \<le> amb then {4} else {}) \<union> (if 4 \<le> amb then {3} else {})"
  using assms by (simp add: level_digits_def)

lemma shown_bounds:
  assumes "0 \<le> a" "a \<le> of_int k"
  shows "shown_degrees p a \<le> nat k + 1" "shown_carried 2 a < 6000" "shown_carried 4 a < 600000"
proof -
  note i = c_int_range [OF assms]
  have "nat (c_int a) \<le> nat k" "nat (c_int a + 1) \<le> nat k + 1" using i by linarith+
  then show "shown_degrees p a \<le> nat k + 1" by (simp add: shown_degrees_def)
  show "shown_carried 2 a < 6000"
    using shown_minutes_le(1) [OF assms(1)] by (simp add: shown_carried_def)
  show "shown_carried 4 a < 600000"
    using shown_minutes_le(2) [OF assms(1)] by (simp add: shown_carried_def)
qed

lemma carried_text_2:
  assumes "0 \<le> a"
  shows "(if shown_minutes 2 a = 6000 then sprintf_d w (c_int a + 1) @ ''00.00''
          else sprintf_d w (c_int a) @
            [digit_char (shown_minutes 2 a div 1000), digit_char (shown_minutes 2 a div 100 mod 10),
             CHR ''.'', digit_char (shown_minutes 2 a div 10 mod 10),
             digit_char (shown_minutes 2 a mod 10)])
       = sprintf_d w (int (shown_degrees 2 a)) @
            [digit_char (shown_carried 2 a div 1000), digit_char (shown_carried 2 a div 100 mod 10),
             CHR ''.'', digit_char (shown_carried 2 a div 10 mod 10),
             digit_char (shown_carried 2 a mod 10)]"
  using c_int_range(1) [OF assms, of "\<lceil>a\<rceil>"]
  by (simp add: shown_degrees_def shown_carried_def digit_char_simps)

lemma carried_text_4:
  assumes "0 \<le> a"
  shows "(if shown_minutes 4 a = 600000 then sprintf_d w (c_int a + 1) @ ''00.0000''
          else sprintf_d w (c_int a) @
            [digit_char (shown_minutes 4 a div 100000),
             digit_char (shown_minutes 4 a div 10000 mod 10), CHR ''.'',
             digit_char (shown_minutes 4 a div 1000 mod 10),
             digit_char (shown_minutes 4 a div 100 mod 10),
             digit_char (shown_minutes 4 a div 10 mod 10),
             digit_char (shown_minutes 4 a mod 10)])
       = sprintf_d w (int (shown_degrees 4 a)) @
            [digit_char (shown_carried 4 a div 100000),
             digit_char (shown_carried 4 a div 10000 mod 10), CHR ''.'',
             digit_char (shown_carried 4 a div 1000 mod 10),
             digit_char (shown_carried 4 a div 100 mod 10),
             digit_char (shown_carried 4 a div 10 mod 10),
             digit_char (shown_carried 4 a mod 10)]"
  using c_int_range(1) [OF assms, of "\<lceil>a\<rceil>"]
  by (simp add: shown_degrees_def shown_carried_def digit_char_simps)

lemma latitude_to_str_digits:
  fixes d :: real
  defines "D \<equiv> shown_degrees 2 \<bar>clamped_latitude d\<bar>"
  defines "M \<equiv> shown_carried 2 \<bar>clamped_latitude d\<bar>"
  shows "fst (latitude_to_str d amb con) =
        latitude_ambiguity amb
          [digit_char (D div 10), digit_char (D mod 10),
           digit_char (M div 1000), digit_char (M div 100 mod 10), CHR ''.'',
           digit_char (M div 10 mod 10), digit_char (M mod 10),
           if clamped_latitude d < 0 then CHR ''S'' else CHR ''N'']"
proof -
  have "D \<le> 91"
    unfolding D_def using shown_bounds(1) [OF abs_clamped_latitude_range(1), of d 90 2]
      abs_clamped_latitude_range(2) [of d] by simp
  then have "sprintf_d 2 (int D) = [digit_char (D div 10), digit_char (D mod 10)]"
    using sprintf_d_2 [of "int D"] by simp
  then show ?thesis
    unfolding latitude_to_str_text carried_text_2 [OF abs_clamped_latitude_range(1)]
    by (simp add: D_def M_def)
qed

lemma longitude_to_str_digits:
  fixes d :: real
  defines "D \<equiv> shown_degrees 2 \<bar>clamped_longitude d\<bar>"
  defines "M \<equiv> shown_carried 2 \<bar>clamped_longitude d\<bar>"
  shows "fst (longitude_to_str d amb con) =
        longitude_ambiguity amb
          [digit_char (D div 100), digit_char (D div 10 mod 10), digit_char (D mod 10),
           digit_char (M div 1000), digit_char (M div 100 mod 10), CHR ''.'',
           digit_char (M div 10 mod 10), digit_char (M mod 10),
           if clamped_longitude d < 0 then CHR ''W'' else CHR ''E'']"
proof -
  have "D \<le> 181"
    unfolding D_def using shown_bounds(1) [OF abs_clamped_longitude_range(1), of d 180 2]
      abs_clamped_longitude_range(2) [of d] by simp
  then have "sprintf_d 3 (int D) =
    [digit_char (D div 100), digit_char (D div 10 mod 10), digit_char (D mod 10)]"
    using sprintf_d_3 [of "int D"] by simp
  then show ?thesis
    unfolding longitude_to_str_text carried_text_2 [OF abs_clamped_longitude_range(1)]
    by (simp add: D_def M_def)
qed

lemma latitude_blanks:
  "blanks (fst (latitude_to_str d amb con)) =
    (if 1 \<le> amb then {6} else {}) \<union> (if 2 \<le> amb then {5} else {}) \<union>
    (if 3 \<le> amb then {3} else {}) \<union> (if 4 \<le> amb then {2} else {})"
  "point_index (fst (latitude_to_str d 0 con)) = 4"
  "length (fst (latitude_to_str d amb con)) = 8"
  "fst (latitude_to_str d amb con) ! 4 = CHR ''.''"
  "fst (latitude_to_str d amb con) ! 7 = (if clamped_latitude d < 0 then CHR ''S'' else CHR ''N'')"
  "fst (latitude_to_str d amb con) ! 2 \<noteq> CHR ''6''"
  "blanked_from (fst (latitude_to_str d amb con)) (fst (latitude_to_str d 0 con))"
proof -
  define D where "D = shown_degrees 2 \<bar>clamped_latitude d\<bar>"
  define M where "M = shown_carried 2 \<bar>clamped_latitude d\<bar>"
  define c0 where "c0 = digit_char (D div 10)"
  define c1 where "c1 = digit_char (D mod 10)"
  define c2 where "c2 = digit_char (M div 1000)"
  define c3 where "c3 = digit_char (M div 100 mod 10)"
  define c5 where "c5 = digit_char (M div 10 mod 10)"
  define c6 where "c6 = digit_char (M mod 10)"
  have D: "D \<le> 91"
    unfolding D_def using shown_bounds(1) [OF abs_clamped_latitude_range(1), of d 90 2]
      abs_clamped_latitude_range(2) [of d] by simp
  have M: "M < 6000"
    unfolding M_def using shown_bounds(2) [OF abs_clamped_latitude_range(1), of d 90]
      abs_clamped_latitude_range(2) [of d] by simp
  have lt: "M div 1000 < 10" "M div 1000 \<noteq> 6" using M by simp_all
  have c2: "c2 \<noteq> CHR ''6''" unfolding c2_def using digit_char_6 [OF lt(1)] lt(2) by simp
  have dg: "isdigit c0" "isdigit c1" "isdigit c2" "isdigit c3" "isdigit c5" "isdigit c6"
    unfolding c0_def c1_def c2_def c3_def c5_def c6_def using D lt(1)
    by (simp_all add: isdigit_digit_char)
  have eq: "fst (latitude_to_str d amb con) =
        latitude_ambiguity amb
          [c0, c1, c2, c3, CHR ''.'', c5, c6,
           if clamped_latitude d < 0 then CHR ''S'' else CHR ''N'']" for amb con
    unfolding c0_def c1_def c2_def c3_def c5_def c6_def D_def M_def
    by (rule latitude_to_str_digits)
  have h: "(if clamped_latitude d < 0 then CHR ''S'' else CHR ''N'') \<noteq> CHR '' ''" by simp
  show "blanks (fst (latitude_to_str d amb con)) =
    (if 1 \<le> amb then {6} else {}) \<union> (if 2 \<le> amb then {5} else {}) \<union>
    (if 3 \<le> amb then {3} else {}) \<union> (if 4 \<le> amb then {2} else {})"
    unfolding eq by (rule blanks_latitude_list [OF dg h])
  show "point_index (fst (latitude_to_str d 0 con)) = 4"
    unfolding eq latitude_ambiguity_0 by (rule point_index_4 [OF dg(1-4)])
  show "length (fst (latitude_to_str d amb con)) = 8"
    unfolding eq latitude_ambiguity_list by simp
  show "fst (latitude_to_str d amb con) ! 4 = CHR ''.''"
    unfolding eq latitude_ambiguity_list by simp
  show "fst (latitude_to_str d amb con) ! 7 = (if clamped_latitude d < 0 then CHR ''S'' else CHR ''N'')"
    unfolding eq latitude_ambiguity_list by simp
  show "fst (latitude_to_str d amb con) ! 2 \<noteq> CHR ''6''"
    unfolding eq latitude_ambiguity_list using c2 by simp
  show "blanked_from (fst (latitude_to_str d amb con)) (fst (latitude_to_str d 0 con))"
    unfolding eq latitude_ambiguity_list blanked_from_def by simp
qed

lemma longitude_blanks:
  "blanks (fst (longitude_to_str d amb con)) =
    (if 1 \<le> amb then {7} else {}) \<union> (if 2 \<le> amb then {6} else {}) \<union>
    (if 3 \<le> amb then {4} else {}) \<union> (if 4 \<le> amb then {3} else {})"
  "point_index (fst (longitude_to_str d 0 con)) = 5"
  "length (fst (longitude_to_str d amb con)) = 9"
  "fst (longitude_to_str d amb con) ! 5 = CHR ''.''"
  "fst (longitude_to_str d amb con) ! 8 = (if clamped_longitude d < 0 then CHR ''W'' else CHR ''E'')"
  "fst (longitude_to_str d amb con) ! 3 \<noteq> CHR ''6''"
  "blanked_from (fst (longitude_to_str d amb con)) (fst (longitude_to_str d 0 con))"
proof -
  define D where "D = shown_degrees 2 \<bar>clamped_longitude d\<bar>"
  define M where "M = shown_carried 2 \<bar>clamped_longitude d\<bar>"
  define c0 where "c0 = digit_char (D div 100)"
  define c1 where "c1 = digit_char (D div 10 mod 10)"
  define c2 where "c2 = digit_char (D mod 10)"
  define c3 where "c3 = digit_char (M div 1000)"
  define c4 where "c4 = digit_char (M div 100 mod 10)"
  define c6 where "c6 = digit_char (M div 10 mod 10)"
  define c7 where "c7 = digit_char (M mod 10)"
  have D: "D \<le> 181"
    unfolding D_def using shown_bounds(1) [OF abs_clamped_longitude_range(1), of d 180 2]
      abs_clamped_longitude_range(2) [of d] by simp
  have M: "M < 6000"
    unfolding M_def using shown_bounds(2) [OF abs_clamped_longitude_range(1), of d 180]
      abs_clamped_longitude_range(2) [of d] by simp
  have lt: "M div 1000 < 10" "M div 1000 \<noteq> 6" using M by simp_all
  have c3: "c3 \<noteq> CHR ''6''" unfolding c3_def using digit_char_6 [OF lt(1)] lt(2) by simp
  have dg: "isdigit c0" "isdigit c1" "isdigit c2" "isdigit c3" "isdigit c4" "isdigit c6"
    "isdigit c7"
    unfolding c0_def c1_def c2_def c3_def c4_def c6_def c7_def using D lt(1)
    by (simp_all add: isdigit_digit_char)
  have eq: "fst (longitude_to_str d amb con) =
        longitude_ambiguity amb
          [c0, c1, c2, c3, c4, CHR ''.'', c6, c7,
           if clamped_longitude d < 0 then CHR ''W'' else CHR ''E'']" for amb con
    unfolding c0_def c1_def c2_def c3_def c4_def c6_def c7_def D_def M_def
    by (rule longitude_to_str_digits)
  have h: "(if clamped_longitude d < 0 then CHR ''W'' else CHR ''E'') \<noteq> CHR '' ''" by simp
  show "blanks (fst (longitude_to_str d amb con)) =
    (if 1 \<le> amb then {7} else {}) \<union> (if 2 \<le> amb then {6} else {}) \<union>
    (if 3 \<le> amb then {4} else {}) \<union> (if 4 \<le> amb then {3} else {})"
    unfolding eq by (rule blanks_longitude_list [OF dg h])
  show "point_index (fst (longitude_to_str d 0 con)) = 5"
    unfolding eq longitude_ambiguity_0 by (rule point_index_5 [OF dg(1-5)])
  show "length (fst (longitude_to_str d amb con)) = 9"
    unfolding eq longitude_ambiguity_list by simp
  show "fst (longitude_to_str d amb con) ! 5 = CHR ''.''"
    unfolding eq longitude_ambiguity_list by simp
  show "fst (longitude_to_str d amb con) ! 8 = (if clamped_longitude d < 0 then CHR ''W'' else CHR ''E'')"
    unfolding eq longitude_ambiguity_list by simp
  show "fst (longitude_to_str d amb con) ! 3 \<noteq> CHR ''6''"
    unfolding eq longitude_ambiguity_list using c3 by simp
  show "blanked_from (fst (longitude_to_str d amb con)) (fst (longitude_to_str d 0 con))"
    unfolding eq longitude_ambiguity_list blanked_from_def by simp
qed

lemma latitude_to_nmea_digits:
  fixes d :: real
  assumes "d \<noteq> g"
  defines "D \<equiv> shown_degrees 4 \<bar>clamped_latitude d\<bar>"
  defines "M \<equiv> shown_carried 4 \<bar>clamped_latitude d\<bar>"
  shows "fst (fst (latitude_to_nmea g d con)) =
          [digit_char (D div 10), digit_char (D mod 10),
           digit_char (M div 100000), digit_char (M div 10000 mod 10), CHR ''.'',
           digit_char (M div 1000 mod 10), digit_char (M div 100 mod 10),
           digit_char (M div 10 mod 10), digit_char (M mod 10)]"
proof -
  have "D \<le> 91"
    unfolding D_def using shown_bounds(1) [OF abs_clamped_latitude_range(1), of d 90 4]
      abs_clamped_latitude_range(2) [of d] by simp
  then have "sprintf_d 2 (int D) = [digit_char (D div 10), digit_char (D mod 10)]"
    using sprintf_d_2 [of "int D"] by simp
  then show ?thesis
    unfolding latitude_to_nmea_text [OF assms(1)] carried_text_4 [OF abs_clamped_latitude_range(1)]
    by (simp add: D_def M_def)
qed

lemma longitude_to_nmea_digits:
  fixes d :: real
  assumes "d \<noteq> g"
  defines "D \<equiv> shown_degrees 4 \<bar>clamped_longitude d\<bar>"
  defines "M \<equiv> shown_carried 4 \<bar>clamped_longitude d\<bar>"
  shows "fst (fst (longitude_to_nmea g d con)) =
          [digit_char (D div 100), digit_char (D div 10 mod 10), digit_char (D mod 10),
           digit_char (M div 100000), digit_char (M div 10000 mod 10), CHR ''.'',
           digit_char (M div 1000 mod 10), digit_char (M div 100 mod 10),
           digit_char (M div 10 mod 10), digit_char (M mod 10)]"
proof -
  have "D \<le> 181"
    unfolding D_def using shown_bounds(1) [OF abs_clamped_longitude_range(1), of d 180 4]
      abs_clamped_longitude_range(2) [of d] by simp
  then have "sprintf_d 3 (int D) =
    [digit_char (D div 100), digit_char (D div 10 mod 10), digit_char (D mod 10)]"
    using sprintf_d_3 [of "int D"] by simp
  then show ?thesis
    unfolding longitude_to_nmea_text [OF assms(1)] carried_text_4 [OF abs_clamped_longitude_range(1)]
    by (simp add: D_def M_def)
qed

lemma nmea_unknown:
  "latitude_to_nmea g g con = (('''', ''''), con)"
  "longitude_to_nmea g g con = (('''', ''''), con)"
  by (simp_all add: latitude_to_nmea_def longitude_to_nmea_def)

lemma carried_4_first_digit:
  assumes "0 \<le> a"
  shows "digit_char (shown_carried 4 a div 100000) \<noteq> CHR ''6''"
proof -
  have M: "shown_carried 4 a < 600000"
    using shown_bounds(3) [OF assms, of "\<lceil>a\<rceil>"] by simp
  then have lt: "shown_carried 4 a div 100000 < 10" "shown_carried 4 a div 100000 \<noteq> 6"
    by simp_all
  show ?thesis using digit_char_6 [OF lt(1)] lt(2) by simp
qed

lemma latitude_to_nmea_never_60:
  "take 7 (drop 2 (fst (fst (latitude_to_nmea g d con)))) \<noteq> ''60.0000''"
proof (cases "d = g")
  case True
  then show ?thesis by (simp add: nmea_unknown)
next
  case False
  show ?thesis
    unfolding latitude_to_nmea_digits [OF False]
    using carried_4_first_digit [OF abs_clamped_latitude_range(1), of d] by simp
qed

lemma longitude_to_nmea_never_60:
  "take 7 (drop 3 (fst (fst (longitude_to_nmea g d con)))) \<noteq> ''60.0000''"
proof (cases "d = g")
  case True
  then show ?thesis by (simp add: nmea_unknown)
next
  case False
  show ?thesis
    unfolding longitude_to_nmea_digits [OF False]
    using carried_4_first_digit [OF abs_clamped_longitude_range(1), of d] by simp
qed

lemma latitude_to_str_never_60:
  "take 5 (drop 2 (fst (latitude_to_str d amb con))) \<noteq> ''60.00''"
proof
  assume a: "take 5 (drop 2 (fst (latitude_to_str d amb con))) = ''60.00''"
  have "take 5 (drop 2 (fst (latitude_to_str d amb con))) ! 0 = fst (latitude_to_str d amb con) ! 2"
    using latitude_blanks(3) [of d amb con] by simp
  then show False using a latitude_blanks(6) [of d amb con] by simp
qed

lemma longitude_to_str_never_60:
  "take 5 (drop 3 (fst (longitude_to_str d amb con))) \<noteq> ''60.00''"
proof
  assume a: "take 5 (drop 3 (fst (longitude_to_str d amb con))) = ''60.00''"
  have "take 5 (drop 3 (fst (longitude_to_str d amb con))) ! 0 = fst (longitude_to_str d amb con) ! 3"
    using longitude_blanks(3) [of d amb con] by simp
  then show False using a longitude_blanks(6) [of d amb con] by simp
qed

lemma smin_carry_2:
  assumes "0 \<le> a" "sprintf_f 5 2 (minutes_part a) ! 0 = CHR ''6''"
  shows "sprintf_f 5 2 (minutes_part a) = ''60.00''" "shown_minutes 2 a = 6000"
proof -
  show m: "shown_minutes 2 a = 6000" using smin_2_carry [OF assms(1)] assms(2) by simp
  show "sprintf_f 5 2 (minutes_part a) = ''60.00''"
    unfolding smin_2 [OF assms(1)] m by (simp add: digit_char_simps)
qed

lemma smin_carry_4:
  assumes "0 \<le> a" "sprintf_f 7 4 (minutes_part a) ! 0 = CHR ''6''"
  shows "sprintf_f 7 4 (minutes_part a) = ''60.0000''" "shown_minutes 4 a = 600000"
proof -
  show m: "shown_minutes 4 a = 600000" using smin_4_carry [OF assms(1)] assms(2) by simp
  show "sprintf_f 7 4 (minutes_part a) = ''60.0000''"
    unfolding smin_4 [OF assms(1)] m by (simp add: digit_char_simps)
qed

lemma latitude_digit_places:
  "fst (latitude_to_str d 0 con) ! digit_index (fst (latitude_to_str d 0 con)) dg =
     digit_char (digit_of dg (shown_carried 2 \<bar>clamped_latitude d\<bar>))"
proof -
  have M: "shown_carried 2 \<bar>clamped_latitude d\<bar> < 6000"
    using shown_bounds(2) [OF abs_clamped_latitude_range(1), of d 90]
      abs_clamped_latitude_range(2) [of d] by simp
  then have t: "shown_carried 2 \<bar>clamped_latitude d\<bar> div 1000 mod 10 =
      shown_carried 2 \<bar>clamped_latitude d\<bar> div 1000" by simp
  have p: "point_index (fst (latitude_to_str d 0 con)) = 4" by (rule latitude_blanks(2))
  show ?thesis
    by (cases dg)
      (simp_all add: p t, simp_all add: latitude_to_str_digits latitude_ambiguity_list)
qed

lemma longitude_digit_places:
  "fst (longitude_to_str d 0 con) ! digit_index (fst (longitude_to_str d 0 con)) dg =
     digit_char (digit_of dg (shown_carried 2 \<bar>clamped_longitude d\<bar>))"
proof -
  have M: "shown_carried 2 \<bar>clamped_longitude d\<bar> < 6000"
    using shown_bounds(2) [OF abs_clamped_longitude_range(1), of d 180]
      abs_clamped_longitude_range(2) [of d] by simp
  then have t: "shown_carried 2 \<bar>clamped_longitude d\<bar> div 1000 mod 10 =
      shown_carried 2 \<bar>clamped_longitude d\<bar> div 1000" by simp
  have p: "point_index (fst (longitude_to_str d 0 con)) = 5" by (rule longitude_blanks(2))
  show ?thesis
    by (cases dg)
      (simp_all add: p t, simp_all add: longitude_to_str_digits longitude_ambiguity_list)
qed

subsection \<open>Claims about the human-readable and NMEA encoders\<close>

text \<open>Facts that evaluate the encoders on numerals.\<close>

lemmas encoder_eval =
  clamped_latitude_def clamped_longitude_def minutes_part_def c_int_def sprintf_f_def
  sprintf_d_def round_half_even_def Let_def zero_pad_def dec_digits.simps digit_char_simps
  latitude_ambiguity_def longitude_ambiguity_def

text \<open>
  Claim C1. Whenever the minutes of a latitude or longitude, as \<^verbatim>\<open>sprintf\<close> formats them
  with the decimals of the field, come out with the leading character \<open>6\<close>, the
  formatted minutes read \<open>60.00\<close> (\<open>60.0000\<close> in the NMEA encoders), and the encoder
  writes the whole degrees plus one followed by minutes that are all zeros. No output of
  the four encoders has \<open>60.00\<close> or \<open>60.0000\<close> as its minutes field, at any ambiguity
  level and for any input.
\<close>

theorem rounding_carry:
  "(sprintf_f 5 2 (minutes_part \<bar>clamped_latitude dlat\<bar>) ! 0 = CHR ''6'' \<longrightarrow>
      sprintf_f 5 2 (minutes_part \<bar>clamped_latitude dlat\<bar>) = ''60.00'' \<and>
      fst (latitude_to_str dlat amb con) =
        latitude_ambiguity amb
          (sprintf_d 2 (c_int \<bar>clamped_latitude dlat\<bar> + 1) @ ''00.00'' @
           [if clamped_latitude dlat < 0 then CHR ''S'' else CHR ''N''])) \<and>
   take 5 (drop 2 (fst (latitude_to_str dlat amb con))) \<noteq> ''60.00'' \<and>
   (sprintf_f 5 2 (minutes_part \<bar>clamped_longitude dlong\<bar>) ! 0 = CHR ''6'' \<longrightarrow>
      sprintf_f 5 2 (minutes_part \<bar>clamped_longitude dlong\<bar>) = ''60.00'' \<and>
      fst (longitude_to_str dlong amb con) =
        longitude_ambiguity amb
          (sprintf_d 3 (c_int \<bar>clamped_longitude dlong\<bar> + 1) @ ''00.00'' @
           [if clamped_longitude dlong < 0 then CHR ''W'' else CHR ''E''])) \<and>
   take 5 (drop 3 (fst (longitude_to_str dlong amb con))) \<noteq> ''60.00'' \<and>
   (dlat \<noteq> g \<and> sprintf_f 7 4 (minutes_part \<bar>clamped_latitude dlat\<bar>) ! 0 = CHR ''6'' \<longrightarrow>
      sprintf_f 7 4 (minutes_part \<bar>clamped_latitude dlat\<bar>) = ''60.0000'' \<and>
      fst (fst (latitude_to_nmea g dlat con)) =
        sprintf_d 2 (c_int \<bar>clamped_latitude dlat\<bar> + 1) @ ''00.0000'') \<and>
   take 7 (drop 2 (fst (fst (latitude_to_nmea g dlat con)))) \<noteq> ''60.0000'' \<and>
   (dlong \<noteq> g \<and> sprintf_f 7 4 (minutes_part \<bar>clamped_longitude dlong\<bar>) ! 0 = CHR ''6'' \<longrightarrow>
      sprintf_f 7 4 (minutes_part \<bar>clamped_longitude dlong\<bar>) = ''60.0000'' \<and>
      fst (fst (longitude_to_nmea g dlong con)) =
        sprintf_d 3 (c_int \<bar>clamped_longitude dlong\<bar> + 1) @ ''00.0000'') \<and>
   take 7 (drop 3 (fst (fst (longitude_to_nmea g dlong con)))) \<noteq> ''60.0000''"
proof -
  note la = abs_clamped_latitude_range(1) [of dlat]
  note lo = abs_clamped_longitude_range(1) [of dlong]
  have 1: "sprintf_f 5 2 (minutes_part \<bar>clamped_latitude dlat\<bar>) ! 0 = CHR ''6'' \<longrightarrow>
      sprintf_f 5 2 (minutes_part \<bar>clamped_latitude dlat\<bar>) = ''60.00'' \<and>
      fst (latitude_to_str dlat amb con) =
        latitude_ambiguity amb
          (sprintf_d 2 (c_int \<bar>clamped_latitude dlat\<bar> + 1) @ ''00.00'' @
           [if clamped_latitude dlat < 0 then CHR ''S'' else CHR ''N''])"
    using smin_carry_2 [OF la] by (simp add: latitude_to_str_text)
  have 2: "sprintf_f 5 2 (minutes_part \<bar>clamped_longitude dlong\<bar>) ! 0 = CHR ''6'' \<longrightarrow>
      sprintf_f 5 2 (minutes_part \<bar>clamped_longitude dlong\<bar>) = ''60.00'' \<and>
      fst (longitude_to_str dlong amb con) =
        longitude_ambiguity amb
          (sprintf_d 3 (c_int \<bar>clamped_longitude dlong\<bar> + 1) @ ''00.00'' @
           [if clamped_longitude dlong < 0 then CHR ''W'' else CHR ''E''])"
    using smin_carry_2 [OF lo] by (simp add: longitude_to_str_text)
  have 3: "dlat \<noteq> g \<and> sprintf_f 7 4 (minutes_part \<bar>clamped_latitude dlat\<bar>) ! 0 = CHR ''6'' \<longrightarrow>
      sprintf_f 7 4 (minutes_part \<bar>clamped_latitude dlat\<bar>) = ''60.0000'' \<and>
      fst (fst (latitude_to_nmea g dlat con)) =
        sprintf_d 2 (c_int \<bar>clamped_latitude dlat\<bar> + 1) @ ''00.0000''"
    using smin_carry_4 [OF la] by (simp add: latitude_to_nmea_text)
  have 4: "dlong \<noteq> g \<and> sprintf_f 7 4 (minutes_part \<bar>clamped_longitude dlong\<bar>) ! 0 = CHR ''6'' \<longrightarrow>
      sprintf_f 7 4 (minutes_part \<bar>clamped_longitude dlong\<bar>) = ''60.0000'' \<and>
      fst (fst (longitude_to_nmea g dlong con)) =
        sprintf_d 3 (c_int \<bar>clamped_longitude dlong\<bar> + 1) @ ''00.0000''"
    using smin_carry_4 [OF lo] by (simp add: longitude_to_nmea_text)
  show ?thesis
    by (intro conjI 1 2 3 4 latitude_to_str_never_60 longitude_to_str_never_60
        latitude_to_nmea_never_60 longitude_to_nmea_never_60)
qed

text \<open>
  The carry at work: 10 degrees 59.99999 minutes north and 121 degrees 59.99999 minutes
  west.
\<close>

theorem rounding_carry_witness:
  "sprintf_f 5 2 (minutes_part \<bar>clamped_latitude (65999999 / 6000000)\<bar>) = ''60.00'' \<and>
   fst (latitude_to_str (65999999 / 6000000) 0 []) = ''1100.00N'' \<and>
   sprintf_f 5 2 (minutes_part \<bar>clamped_longitude (- 731999999 / 6000000)\<bar>) = ''60.00'' \<and>
   fst (longitude_to_str (- 731999999 / 6000000) 0 []) = ''12200.00W'' \<and>
   sprintf_f 7 4 (minutes_part \<bar>clamped_latitude (65999999 / 6000000)\<bar>) = ''60.0000'' \<and>
   fst (fst (latitude_to_nmea (- 999999) (65999999 / 6000000) [])) = ''1100.0000'' \<and>
   sprintf_f 7 4 (minutes_part \<bar>clamped_longitude (- 731999999 / 6000000)\<bar>) = ''60.0000'' \<and>
   fst (fst (longitude_to_nmea (- 999999) (- 731999999 / 6000000) [])) = ''12200.0000''"
proof -
  have h1: "sprintf_f 5 2 (minutes_part \<bar>clamped_latitude (65999999 / 6000000)\<bar>) ! 0 = CHR ''6''"
    by (simp add: encoder_eval)
  have h2: "sprintf_f 5 2 (minutes_part \<bar>clamped_longitude (- 731999999 / 6000000)\<bar>) ! 0 = CHR ''6''"
    by (simp add: encoder_eval)
  have h3: "sprintf_f 7 4 (minutes_part \<bar>clamped_latitude (65999999 / 6000000)\<bar>) ! 0 = CHR ''6''"
    by (simp add: encoder_eval)
  have h4: "sprintf_f 7 4 (minutes_part \<bar>clamped_longitude (- 731999999 / 6000000)\<bar>) ! 0 = CHR ''6''"
    by (simp add: encoder_eval)
  have g: "(65999999 / 6000000 :: real) \<noteq> - 999999" "(- 731999999 / 6000000 :: real) \<noteq> - 999999"
    by simp_all
  have d1: "latitude_ambiguity 0
          (sprintf_d 2 (c_int \<bar>clamped_latitude (65999999 / 6000000)\<bar> + 1) @ ''00.00'' @
           [if clamped_latitude (65999999 / 6000000) < 0 then CHR ''S'' else CHR ''N'']) = ''1100.00N''"
    by (simp add: encoder_eval)
  have d2: "longitude_ambiguity 0
          (sprintf_d 3 (c_int \<bar>clamped_longitude (- 731999999 / 6000000)\<bar> + 1) @ ''00.00'' @
           [if clamped_longitude (- 731999999 / 6000000) < 0 then CHR ''W'' else CHR ''E'']) = ''12200.00W''"
    by (simp add: encoder_eval)
  have d3: "sprintf_d 2 (c_int \<bar>clamped_latitude (65999999 / 6000000)\<bar> + 1) @ ''00.0000'' = ''1100.0000''"
    by (simp add: encoder_eval)
  have d4: "sprintf_d 3 (c_int \<bar>clamped_longitude (- 731999999 / 6000000)\<bar> + 1) @ ''00.0000'' = ''12200.0000''"
    by (simp add: encoder_eval)
  show ?thesis
    using rounding_carry [where dlat = "65999999 / 6000000" and dlong = "- 731999999 / 6000000"
        and amb = 0 and con = "[]" and g = "- 999999"] h1 h2 h3 h4 g
    unfolding d1 d2 d3 d4 by blast
qed

text \<open>
  Claim C2, as amended. At every ambiguity level the characters that hold a space are
  exactly the minutes digits of that level: the hundredths from level 1, also the tenths
  from level 2, also the units of minutes from level 3, also the tens of minutes from
  level 4. Every other character is that of the field without ambiguity. The digits are
  located relative to the decimal point (index 4 in a latitude, 5 in a longitude), where
  the field without ambiguity holds the digit of that place of the minutes shown, so the
  two encoders blank the same digits.
\<close>

theorem ambiguity_blanks_digits:
  "blanks (fst (latitude_to_str dlat k con)) =
     digit_index (fst (latitude_to_str dlat 0 con)) ` level_digits k \<and>
   blanks (fst (longitude_to_str dlong k con)) =
     digit_index (fst (longitude_to_str dlong 0 con)) ` level_digits k \<and>
   blanked_from (fst (latitude_to_str dlat k con)) (fst (latitude_to_str dlat 0 con)) \<and>
   blanked_from (fst (longitude_to_str dlong k con)) (fst (longitude_to_str dlong 0 con)) \<and>
   point_index (fst (latitude_to_str dlat 0 con)) = 4 \<and>
   point_index (fst (longitude_to_str dlong 0 con)) = 5 \<and>
   fst (latitude_to_str dlat 0 con) ! digit_index (fst (latitude_to_str dlat 0 con)) dg =
     digit_char (digit_of dg (shown_carried 2 \<bar>clamped_latitude dlat\<bar>)) \<and>
   fst (longitude_to_str dlong 0 con) ! digit_index (fst (longitude_to_str dlong 0 con)) dg =
     digit_char (digit_of dg (shown_carried 2 \<bar>clamped_longitude dlong\<bar>))"
  using latitude_blanks(1,7) [of dlat k con] longitude_blanks(1,7) [of dlong k con]
    latitude_blanks(2) [of dlat con] longitude_blanks(2) [of dlong con]
    digit_index_image_4 [OF latitude_blanks(2) [of dlat con], of k]
    digit_index_image_5 [OF longitude_blanks(2) [of dlong con], of k]
    latitude_digit_places [of dlat con dg] longitude_digit_places [of dlong con dg]
  by simp

text \<open>
  Claim C2 as stated has the tens of minutes blanked at level 3 and the units at level 4.
  Latitude 49.5 at level 3 is \<open>493 .  N\<close>: the units digit is blanked and the tens
  digit \<open>3\<close> is not.
\<close>

theorem ambiguity_level_3_counterexample:
  "fst (latitude_to_str (99 / 2) 0 []) = ''4930.00N'' \<and>
   fst (latitude_to_str (99 / 2) 3 []) = ''493 .  N'' \<and>
   blanks (fst (latitude_to_str (99 / 2) 3 [])) \<noteq>
     digit_index (fst (latitude_to_str (99 / 2) 0 [])) ` claimed_level_digits 3"
proof -
  have a: "fst (latitude_to_str (99 / 2) 0 []) = ''4930.00N''"
    by (simp add: latitude_to_str_def encoder_eval)
  have b: "fst (latitude_to_str (99 / 2) 3 []) = ''493 .  N''"
    by (simp add: latitude_to_str_def encoder_eval)
  have c: "blanks ''493 .  N'' = {3, 5, 6}"
    by (auto simp add: blanks_Cons blanks_Nil eval_nat_numeral)
  have d: "digit_index ''4930.00N'' ` claimed_level_digits 3 = {2, 5, 6}"
    by (auto simp add: claimed_level_digits_def point_index_def)
  have e: "{3, 5, 6} \<noteq> {2, 5, 6 :: nat}"
  proof
    assume "{3, 5, 6} = {2, 5, 6 :: nat}"
    then have "(2 :: nat) \<in> {3, 5, 6}" by simp
    then show False by simp
  qed
  show ?thesis unfolding a b c d using e by simp
qed

text \<open>
  Claim C9. The positions blanked at level \<open>k + 1\<close> include those blanked at level
  \<open>k\<close>; level 0 blanks nothing; and at every level the decimal point and the
  hemisphere letter are in their places, never blanked.
\<close>

theorem ambiguity_monotone:
  "blanks (fst (latitude_to_str dlat k con)) \<subseteq> blanks (fst (latitude_to_str dlat (k + 1) con)) \<and>
   blanks (fst (latitude_to_str dlat 0 con)) = {} \<and>
   fst (latitude_to_str dlat k con) ! 4 = CHR ''.'' \<and>
   fst (latitude_to_str dlat k con) ! 7 = (if clamped_latitude dlat < 0 then CHR ''S'' else CHR ''N'') \<and>
   4 \<notin> blanks (fst (latitude_to_str dlat k con)) \<and>
   7 \<notin> blanks (fst (latitude_to_str dlat k con)) \<and>
   blanks (fst (longitude_to_str dlong k con)) \<subseteq> blanks (fst (longitude_to_str dlong (k + 1) con)) \<and>
   blanks (fst (longitude_to_str dlong 0 con)) = {} \<and>
   fst (longitude_to_str dlong k con) ! 5 = CHR ''.'' \<and>
   fst (longitude_to_str dlong k con) ! 8 = (if clamped_longitude dlong < 0 then CHR ''W'' else CHR ''E'') \<and>
   5 \<notin> blanks (fst (longitude_to_str dlong k con)) \<and>
   8 \<notin> blanks (fst (longitude_to_str dlong k con))"
proof -
  have 1: "blanks (fst (latitude_to_str dlat k con)) \<subseteq> blanks (fst (latitude_to_str dlat (k + 1) con))"
    unfolding latitude_blanks(1) by auto
  have 2: "blanks (fst (longitude_to_str dlong k con)) \<subseteq> blanks (fst (longitude_to_str dlong (k + 1) con))"
    unfolding longitude_blanks(1) by auto
  have 3: "4 \<notin> blanks (fst (latitude_to_str dlat k con))" "7 \<notin> blanks (fst (latitude_to_str dlat k con))"
    "blanks (fst (latitude_to_str dlat 0 con)) = {}"
    unfolding latitude_blanks(1) by simp_all
  have 4: "5 \<notin> blanks (fst (longitude_to_str dlong k con))" "8 \<notin> blanks (fst (longitude_to_str dlong k con))"
    "blanks (fst (longitude_to_str dlong 0 con)) = {}"
    unfolding longitude_blanks(1) by simp_all
  show ?thesis
    using 1 2 3 4 latitude_blanks(4,5) [of dlat k con] longitude_blanks(4,5) [of dlong k con]
    by simp
qed

subsection \<open>The NMEA decoders in closed form\<close>

text \<open>Facts that evaluate the decoders on literal strings.\<close>

lemmas decoder_eval =
  latitude_from_nmea_def longitude_from_nmea_def c_str_at_def c_char_def isdigit_def
  atof_def strtod_unsigned_def strtod_decimal_def mantissa_def exponent_part_def take_sign_def
  digits_value_def digit_value_def isspace_def isxdigit_def dw_printf_def text_color_set_def
  Let_def

lemma latitude_from_nmea_accepted:
  assumes "isdigit (c_str_at pstr 0)" "c_str_at pstr 4 = CHR ''.''"
  defines "v \<equiv> latitude_field_value pstr"
  shows "latitude_from_nmea g pstr phemi con =
    (if c_str_at phemi 0 = CHR ''S'' then - v else v,
     (con @ (if v < 0 \<or> 90 < v
             then [Color DW_COLOR_ERROR,
                   Printed ''Error: Latitude not in range of 0 to 90.\<newline>'']
             else []))
     @ (if c_str_at phemi 0 \<noteq> CHR ''N'' \<and> c_str_at phemi 0 \<noteq> CHR ''S''
           \<and> c_str_at phemi 0 \<noteq> CHR 0x00
        then [Color DW_COLOR_ERROR,
              Printed ''Error: Latitude hemisphere should be N or S.\<newline>'']
        else []))"
proof -
  show ?thesis
    unfolding latitude_from_nmea_def v_def latitude_field_value_def using assms(1,2)
    by (simp add: Let_def dw_printf_def text_color_set_def)
qed

lemma longitude_from_nmea_accepted:
  assumes "isdigit (c_str_at pstr 0)" "c_str_at pstr 5 = CHR ''.''"
  defines "v \<equiv> longitude_field_value pstr"
  shows "longitude_from_nmea g pstr phemi con =
    (if c_str_at phemi 0 = CHR ''W'' then - v else v,
     (con @ (if v < 0 \<or> 180 < v
             then [Color DW_COLOR_ERROR,
                   Printed ''Error: Longitude not in range of 0 to 180.\<newline>'']
             else []))
     @ (if c_str_at phemi 0 \<noteq> CHR ''E'' \<and> c_str_at phemi 0 \<noteq> CHR ''W''
           \<and> c_str_at phemi 0 \<noteq> CHR 0x00
        then [Color DW_COLOR_ERROR,
              Printed ''Error: Longitude hemisphere should be E or W.\<newline>'']
        else []))"
proof -
  show ?thesis
    unfolding longitude_from_nmea_def v_def longitude_field_value_def using assms(1,2)
    by (simp add: Let_def dw_printf_def text_color_set_def)
qed

lemma from_nmea_rejected:
  "\<not> isdigit (c_str_at pstr 0) \<Longrightarrow> latitude_from_nmea g pstr phemi con = (g, con)"
  "c_str_at pstr 4 \<noteq> CHR ''.'' \<Longrightarrow> latitude_from_nmea g pstr phemi con = (g, con)"
  "\<not> isdigit (c_str_at pstr 0) \<Longrightarrow> longitude_from_nmea g pstr phemi con = (g, con)"
  "c_str_at pstr 5 \<noteq> CHR ''.'' \<Longrightarrow> longitude_from_nmea g pstr phemi con = (g, con)"
  by (simp_all add: latitude_from_nmea_def longitude_from_nmea_def)

text \<open>
  A field that passes the structural checks never presents an infinity or a NaN to
  \<^verbatim>\<open>atof\<close>.
\<close>

lemma tolower_point: "tolower (CHR ''.'') = CHR ''.''"
  by (simp add: tolower_def)

lemma point_third_no_inf_nan:
  assumes "2 < length s" "s ! 2 = CHR ''.''"
  shows "\<not> spells_inf_or_nan s"
proof -
  obtain a b rest where s: "s = a # b # CHR ''.'' # rest"
    using assms by (cases s; cases "tl s"; cases "tl (tl s)") auto
  show ?thesis
    unfolding s spells_inf_or_nan_def take_sign_def Let_def
    by (auto simp add: isspace_def tolower_point split: list.splits if_splits)
qed

lemma accepted_field_no_inf_nan:
  "c_str_at pstr 4 = CHR ''.'' \<Longrightarrow> \<not> spells_inf_or_nan (drop 2 pstr)"
  "c_str_at pstr 5 = CHR ''.'' \<Longrightarrow> \<not> spells_inf_or_nan (drop 3 pstr)"
proof -
  assume "c_str_at pstr 4 = CHR ''.''"
  then have "4 < length pstr" "pstr ! 4 = CHR ''.''"
    by (auto simp add: c_str_at_def split: if_splits)
  then show "\<not> spells_inf_or_nan (drop 2 pstr)"
    by (intro point_third_no_inf_nan) simp_all
next
  assume "c_str_at pstr 5 = CHR ''.''"
  then have "5 < length pstr" "pstr ! 5 = CHR ''.''"
    by (auto simp add: c_str_at_def split: if_splits)
  then show "\<not> spells_inf_or_nan (drop 3 pstr)"
    by (intro point_third_no_inf_nan) simp_all
qed

text \<open>Decimal digits, written and read back.\<close>

lemma dec_digits_isdigit: "list_all isdigit (dec_digits n)"
proof (induction n rule: dec_digits.induct)
  case (1 n)
  show ?case
  proof (cases "n < 10")
    case True
    then show ?thesis by (simp add: dec_digits_lt10 isdigit_digit_char)
  next
    case False
    then have "list_all isdigit (dec_digits (n div 10))" using 1 by simp
    then show ?thesis using False by (simp add: dec_digits_ge10 isdigit_digit_char)
  qed
qed

lemma dec_digits_nonempty: "dec_digits n \<noteq> []"
  by (subst dec_digits.simps) simp

lemma digit_value_digit_char: "d < 10 \<Longrightarrow> digit_value (digit_char d) = d"
  by (simp add: digit_value_def isdigit_digit_char of_char_digit_char)

lemma digits_value_snoc: "digits_value b (ds @ [c]) = digits_value b ds * b + digit_value c"
  by (simp add: digits_value_def)

lemma digits_value_dec_digits: "digits_value 10 (dec_digits n) = n"
proof (induction n rule: dec_digits.induct)
  case (1 n)
  show ?case
  proof (cases "n < 10")
    case True
    then show ?thesis by (simp add: dec_digits_lt10 digits_value_def digit_value_digit_char)
  next
    case False
    then have "digits_value 10 (dec_digits (n div 10)) = n div 10" using 1 by simp
    then show ?thesis
      using False by (simp add: dec_digits_ge10 digits_value_snoc digit_value_digit_char)
  qed
qed

lemma digits_value_zeros: "digits_value 10 (''00'' @ ds) = digits_value 10 ds"
  by (simp add: digits_value_def digit_value_def isdigit_def)

lemma takeWhile_digits:
  assumes "list_all isdigit ds" "\<not> isdigit c"
  shows "takeWhile isdigit (ds @ c # r) = ds" "dropWhile isdigit (ds @ c # r) = c # r"
  using assms by (induction ds) simp_all

lemma takeWhile_all_digits:
  assumes "list_all isdigit ds"
  shows "takeWhile isdigit ds = ds"
  using assms by (induction ds) simp_all

lemma atof_exponent_text:
  "atof (''00.'' @ dec_digits m @ ''e'' @ dec_digits (length (dec_digits m))) = real m"
proof -
  define D where "D = dec_digits m"
  define K where "K = dec_digits (length D)"
  have D: "list_all isdigit D" "D \<noteq> []" by (simp_all add: D_def dec_digits_isdigit dec_digits_nonempty)
  have K: "list_all isdigit K" "K \<noteq> []" by (simp_all add: K_def dec_digits_isdigit dec_digits_nonempty)
  have e: "\<not> isdigit (CHR ''e'')" by (simp add: isdigit_def)
  obtain k ks where Kc: "K = k # ks" using K(2) by (cases K) auto
  then have k: "isdigit k" using K(1) by simp
  then have ksign: "k \<noteq> CHR ''-''" "k \<noteq> CHR ''+''" by (auto simp add: isdigit_def)
  have ts: "take_sign K = (False, K)" using ksign by (simp add: take_sign_def Kc)
  have kv: "digits_value 10 K = length D" by (simp add: K_def digits_value_dec_digits)
  have ex: "exponent_part (CHR ''e'') (CHR ''E'') (CHR ''e'' # K) = int (length D)"
    using K(2) by (simp add: exponent_part_def ts takeWhile_all_digits [OF K(1)] kv)
  have tw: "takeWhile isdigit (D @ CHR ''e'' # K) = D" "dropWhile isdigit (D @ CHR ''e'' # K) = CHR ''e'' # K"
    using takeWhile_digits [OF D(1) e] by simp_all
  have z: "isdigit (CHR ''0'')" "\<not> isdigit (CHR ''.'')" by (simp_all add: isdigit_def)
  have ma: "mantissa 10 isdigit (''00.'' @ D @ ''e'' @ K) =
      Some (real m / real (10 ^ length D), CHR ''e'' # K)"
    using D(2) z digits_value_zeros [of D]
    by (simp add: mantissa_def tw D_def [symmetric] digits_value_dec_digits [of m, folded D_def])
  have dec: "strtod_decimal (''00.'' @ D @ ''e'' @ K) = real m"
    using ma ex D(2) by (simp add: strtod_decimal_def power_int_def)
  have "atof (''00.'' @ D @ ''e'' @ K) = real m"
    using dec by (simp add: atof_def isspace_def take_sign_def strtod_unsigned_def)
  then show ?thesis by (simp add: D_def K_def)
qed

text \<open>
  Every whole number of degrees beyond the domain, of either sign, is the value that the
  latitude decoder returns for some field that passes its structural checks.
\<close>

lemma exponent_field_accepted:
  "isdigit (c_str_at (exponent_field n) 0)"
  "c_str_at (exponent_field n) 4 = CHR ''.''"
  "latitude_field_value (exponent_field n) = real n"
  "isdigit (c_str_at (CHR ''0'' # exponent_field n) 0)"
  "c_str_at (CHR ''0'' # exponent_field n) 5 = CHR ''.''"
  "longitude_field_value (CHR ''0'' # exponent_field n) = real n"
proof -
  show "isdigit (c_str_at (exponent_field n) 0)" "c_str_at (exponent_field n) 4 = CHR ''.''"
    "isdigit (c_str_at (CHR ''0'' # exponent_field n) 0)"
    "c_str_at (CHR ''0'' # exponent_field n) 5 = CHR ''.''"
    by (simp_all add: exponent_field_def c_str_at_def isdigit_def)
  have a: "atof (drop 2 (exponent_field n)) = real (60 * n)"
    "atof (drop 3 (CHR ''0'' # exponent_field n)) = real (60 * n)"
    using atof_exponent_text [of "60 * n"] by (simp_all add: exponent_field_def)
  show "latitude_field_value (exponent_field n) = real n"
    unfolding latitude_field_value_def a
    by (simp add: exponent_field_def c_str_at_def c_char_def)
  show "longitude_field_value (CHR ''0'' # exponent_field n) = real n"
    unfolding longitude_field_value_def a
    by (simp add: exponent_field_def c_str_at_def c_char_def)
qed

lemma sentinel_is_decodable:
  assumes "90 < n"
  shows "latitude_from_nmea (- real n) (exponent_field n) ''S'' con =
     (- real n,
      con @ [Color DW_COLOR_ERROR,
             Printed ''Error: Latitude not in range of 0 to 90.\<newline>''])"
    and "latitude_from_nmea (real n) (exponent_field n) ''N'' con =
     (real n,
      con @ [Color DW_COLOR_ERROR,
             Printed ''Error: Latitude not in range of 0 to 90.\<newline>''])"
  using assms
    latitude_from_nmea_accepted [where pstr = "exponent_field n" and g = "- real n"
      and phemi = "''S''" and con = con, OF exponent_field_accepted(1,2)]
    latitude_from_nmea_accepted [where pstr = "exponent_field n" and g = "real n"
      and phemi = "''N''" and con = con, OF exponent_field_accepted(1,2)]
  by (simp_all add: exponent_field_accepted(3) c_str_at_def)

subsection \<open>Claims about the unknown value and the NMEA decoders\<close>

text \<open>
  Claim C6. When the coordinate equals \<^verbatim>\<open>G_UNKNOWN\<close>, \<^verbatim>\<open>latitude_to_nmea\<close> and
  \<^verbatim>\<open>longitude_to_nmea\<close> leave the empty string in both outputs and return at once:
  the console is the one they were given, so nothing was clamped and no warning was
  printed, whatever the value of the constant.
\<close>

theorem to_nmea_unknown:
  "latitude_to_nmea g g con = (('''', ''''), con) \<and>
   longitude_to_nmea g g con = (('''', ''''), con)"
  by (simp add: latitude_to_nmea_def longitude_to_nmea_def)

text \<open>
  Claim C5, as amended. The decoders return \<^verbatim>\<open>G_UNKNOWN\<close> and leave the console
  untouched whenever the first character of the numeric field is not a digit or the
  byte at index 4 (latitude) or 5 (longitude) is not the decimal point; the index
  counts the bytes in memory from the start of the field, also when the field is
  shorter and the byte lies after its terminating NUL. For a constant outside the
  coordinate domain (\<open>[-90, 90]\<close> for latitude, \<open>[-180, 180]\<close> for longitude) this
  is the only way to that result: a field that passes both checks never gives
  \<^verbatim>\<open>G_UNKNOWN\<close> with an untouched console, and when its computed value happens to
  equal \<^verbatim>\<open>G_UNKNOWN\<close> the range warning has been printed first.
\<close>

theorem from_nmea_structural:
  "(\<not> isdigit (c_str_at pstr 0) \<or> c_str_at pstr 4 \<noteq> CHR ''.'' \<longrightarrow>
      latitude_from_nmea g pstr phemi con = (g, con)) \<and>
   (isdigit (c_str_at pstr 0) \<and> c_str_at pstr 4 = CHR ''.'' \<and> (g < - 90 \<or> 90 < g) \<longrightarrow>
      latitude_from_nmea g pstr phemi con \<noteq> (g, con)) \<and>
   (isdigit (c_str_at pstr 0) \<and> c_str_at pstr 4 = CHR ''.'' \<and> (g < - 90 \<or> 90 < g) \<and>
    latitude_from_nmea g pstr phemi con = (g, con') \<longrightarrow>
      take (length con + 2) con' =
        con @ [Color DW_COLOR_ERROR, Printed ''Error: Latitude not in range of 0 to 90.\<newline>'']) \<and>
   (\<not> isdigit (c_str_at pstr' 0) \<or> c_str_at pstr' 5 \<noteq> CHR ''.'' \<longrightarrow>
      longitude_from_nmea g pstr' phemi' con = (g, con)) \<and>
   (isdigit (c_str_at pstr' 0) \<and> c_str_at pstr' 5 = CHR ''.'' \<and> (g < - 180 \<or> 180 < g) \<longrightarrow>
      longitude_from_nmea g pstr' phemi' con \<noteq> (g, con)) \<and>
   (isdigit (c_str_at pstr' 0) \<and> c_str_at pstr' 5 = CHR ''.'' \<and> (g < - 180 \<or> 180 < g) \<and>
    longitude_from_nmea g pstr' phemi' con = (g, con') \<longrightarrow>
      take (length con + 2) con' =
        con @ [Color DW_COLOR_ERROR, Printed ''Error: Longitude not in range of 0 to 180.\<newline>''])"
proof -
  have 1: "\<not> isdigit (c_str_at pstr 0) \<or> c_str_at pstr 4 \<noteq> CHR ''.'' \<longrightarrow>
      latitude_from_nmea g pstr phemi con = (g, con)"
    using from_nmea_rejected(1,2) [of pstr g phemi con] by blast
  have 4: "\<not> isdigit (c_str_at pstr' 0) \<or> c_str_at pstr' 5 \<noteq> CHR ''.'' \<longrightarrow>
      longitude_from_nmea g pstr' phemi' con = (g, con)"
    using from_nmea_rejected(3,4) [of pstr' g phemi' con] by blast
  have 3: "isdigit (c_str_at pstr 0) \<and> c_str_at pstr 4 = CHR ''.'' \<and> (g < - 90 \<or> 90 < g) \<and>
    latitude_from_nmea g pstr phemi con = (g, c) \<longrightarrow>
      take (length con + 2) c =
        con @ [Color DW_COLOR_ERROR, Printed ''Error: Latitude not in range of 0 to 90.\<newline>'']" for c
    using latitude_from_nmea_accepted [of pstr g phemi con]
    by (auto split: if_splits)
  have 6: "isdigit (c_str_at pstr' 0) \<and> c_str_at pstr' 5 = CHR ''.'' \<and> (g < - 180 \<or> 180 < g) \<and>
    longitude_from_nmea g pstr' phemi' con = (g, c) \<longrightarrow>
      take (length con + 2) c =
        con @ [Color DW_COLOR_ERROR, Printed ''Error: Longitude not in range of 0 to 180.\<newline>'']" for c
    using longitude_from_nmea_accepted [of pstr' g phemi' con]
    by (auto split: if_splits)
  have 2: "isdigit (c_str_at pstr 0) \<and> c_str_at pstr 4 = CHR ''.'' \<and> (g < - 90 \<or> 90 < g) \<longrightarrow>
      latitude_from_nmea g pstr phemi con \<noteq> (g, con)"
    using 3 [of con] by auto
  have 5: "isdigit (c_str_at pstr' 0) \<and> c_str_at pstr' 5 = CHR ''.'' \<and> (g < - 180 \<or> 180 < g) \<longrightarrow>
      longitude_from_nmea g pstr' phemi' con \<noteq> (g, con)"
    using 6 [of con] by auto
  show ?thesis by (intro conjI 1 2 3 4 5 6)
qed

text \<open>
  The cases of the theorem on literal fields: a comma where the point should be, a
  regular field, a field whose value is the constant of Dire Wolf's \<^verbatim>\<open>latlong.h\<close>,
  \<open>-999999\<close>, and two fields that end before the index of the point. The field
  \<open>12\<close> with nothing but NUL after it is rejected; the field \<open>12\<close> followed in
  memory by the field \<open>3.5\<close> has a point at index 4 and is decoded, as 12 degrees and
  no minutes.
\<close>

theorem from_nmea_structural_witness:
  "latitude_from_nmea (- 999999) ''4903,5000'' ''N'' [] = (- 999999, []) \<and>
   latitude_from_nmea (- 999999) ''4903.5000'' ''N'' [] \<noteq> (- 999999, []) \<and>
   longitude_from_nmea (- 999999) ''07201,7500'' ''W'' [] = (- 999999, []) \<and>
   longitude_from_nmea (- 999999) ''07201.7500'' ''W'' [] \<noteq> (- 999999, []) \<and>
   latitude_from_nmea (- 999999) ''0059.99994e6'' ''S'' [] =
     (- 999999, [Color DW_COLOR_ERROR,
                 Printed ''Error: Latitude not in range of 0 to 90.\<newline>'']) \<and>
   longitude_from_nmea (- 999999) ''00059.99994e6'' ''W'' [] =
     (- 999999, [Color DW_COLOR_ERROR,
                 Printed ''Error: Longitude not in range of 0 to 180.\<newline>'']) \<and>
   latitude_from_nmea (- 999999) ''12'' ''N'' [] = (- 999999, []) \<and>
   latitude_from_nmea (- 999999) (''12'' @ [CHR 0x00] @ ''3.5'') ''N'' [] = (12, [])"
proof -
  have r3: "\<not> isdigit (c_str_at ''12'' 0) \<or> c_str_at ''12'' 4 \<noteq> CHR ''.''"
    by (simp add: c_str_at_def)
  have s3: "latitude_from_nmea (- 999999) (''12'' @ [CHR 0x00] @ ''3.5'') ''N'' [] = (12, [])"
    by (simp add: decoder_eval)
  have r1: "\<not> isdigit (c_str_at ''4903,5000'' 0) \<or> c_str_at ''4903,5000'' 4 \<noteq> CHR ''.''"
    by (simp add: c_str_at_def)
  have r2: "\<not> isdigit (c_str_at ''07201,7500'' 0) \<or> c_str_at ''07201,7500'' 5 \<noteq> CHR ''.''"
    by (simp add: c_str_at_def)
  have a1: "isdigit (c_str_at ''4903.5000'' 0) \<and> c_str_at ''4903.5000'' 4 = CHR ''.'' \<and>
      ((- 999999 :: real) < - 90 \<or> 90 < (- 999999 :: real))"
    by (simp add: c_str_at_def isdigit_def)
  have a2: "isdigit (c_str_at ''07201.7500'' 0) \<and> c_str_at ''07201.7500'' 5 = CHR ''.'' \<and>
      ((- 999999 :: real) < - 180 \<or> 180 < (- 999999 :: real))"
    by (simp add: c_str_at_def isdigit_def)
  have s1: "latitude_from_nmea (- 999999) ''0059.99994e6'' ''S'' [] =
     (- 999999, [Color DW_COLOR_ERROR,
                 Printed ''Error: Latitude not in range of 0 to 90.\<newline>''])"
    by (simp add: decoder_eval)
  have s2: "longitude_from_nmea (- 999999) ''00059.99994e6'' ''W'' [] =
     (- 999999, [Color DW_COLOR_ERROR,
                 Printed ''Error: Longitude not in range of 0 to 180.\<newline>''])"
    by (simp add: decoder_eval)
  have a3: "isdigit (c_str_at ''0059.99994e6'' 0) \<and> c_str_at ''0059.99994e6'' 4 = CHR ''.'' \<and>
      ((- 999999 :: real) < - 90 \<or> 90 < (- 999999 :: real))"
    by (simp add: c_str_at_def isdigit_def)
  have a4: "isdigit (c_str_at ''00059.99994e6'' 0) \<and> c_str_at ''00059.99994e6'' 5 = CHR ''.'' \<and>
      ((- 999999 :: real) < - 180 \<or> 180 < (- 999999 :: real))"
    by (simp add: c_str_at_def isdigit_def)
  note t1 = from_nmea_structural [where g = "- 999999" and pstr = "''4903,5000''"
      and phemi = "''N''" and con = "[]" and pstr' = "''07201,7500''" and phemi' = "''W''"]
  note t2 = from_nmea_structural [where g = "- 999999" and pstr = "''4903.5000''"
      and phemi = "''N''" and con = "[]" and pstr' = "''07201.7500''" and phemi' = "''W''"]
  note t3 = from_nmea_structural [where g = "- 999999" and pstr = "''0059.99994e6''"
      and phemi = "''S''" and con = "[]" and pstr' = "''00059.99994e6''" and phemi' = "''W''"
      and con' = "[Color DW_COLOR_ERROR, Printed ''Error: Latitude not in range of 0 to 90.\<newline>'']"]
  note t4 = from_nmea_structural [where g = "- 999999" and pstr = "''0059.99994e6''"
      and phemi = "''S''" and con = "[]" and pstr' = "''00059.99994e6''" and phemi' = "''W''"
      and con' = "[Color DW_COLOR_ERROR, Printed ''Error: Longitude not in range of 0 to 180.\<newline>'']"]
  note t5 = from_nmea_structural [where g = "- 999999" and pstr = "''12''"
      and phemi = "''N''" and con = "[]" and pstr' = "''07201,7500''" and phemi' = "''W''"]
  have "take (length ([] :: console) + 2)
      [Color DW_COLOR_ERROR, Printed ''Error: Longitude not in range of 0 to 180.\<newline>''] =
      [] @ [Color DW_COLOR_ERROR, Printed ''Error: Longitude not in range of 0 to 180.\<newline>'']"
    using t4 a4 s2 by blast
  moreover have "latitude_from_nmea (- 999999) ''4903,5000'' ''N'' [] = (- 999999, [])"
    using t1 r1 by blast
  moreover have "longitude_from_nmea (- 999999) ''07201,7500'' ''W'' [] = (- 999999, [])"
    using t1 r2 by blast
  moreover have "latitude_from_nmea (- 999999) ''4903.5000'' ''N'' [] \<noteq> (- 999999, [])"
    using t2 a1 by blast
  moreover have "longitude_from_nmea (- 999999) ''07201.7500'' ''W'' [] \<noteq> (- 999999, [])"
    using t2 a2 by blast
  moreover have "take (length ([] :: console) + 2)
      [Color DW_COLOR_ERROR, Printed ''Error: Latitude not in range of 0 to 90.\<newline>''] =
      [] @ [Color DW_COLOR_ERROR, Printed ''Error: Latitude not in range of 0 to 90.\<newline>'']"
    using t3 a3 s1 by blast
  moreover have "latitude_from_nmea (- 999999) ''12'' ''N'' [] = (- 999999, [])"
    using t5 r3 by blast
  ultimately show ?thesis using s1 s2 s3 by blast
qed

text \<open>
  Claim C5 as stated (the unknown value is returned exactly when a structural check
  fails) does not hold of the returned value alone. The field \<open>0059.99994e6\<close> starts with
  a digit and has its point at index 4; \<^verbatim>\<open>atof\<close> reads \<open>59.99994e6\<close> as 59999940, a
  sixtieth of which is 999999, and with hemisphere \<open>S\<close> the decoder returns \<open>-999999\<close>,
  the value of \<^verbatim>\<open>G_UNKNOWN\<close>.
\<close>

theorem from_nmea_sentinel_counterexample:
  "isdigit (c_str_at ''0059.99994e6'' 0) \<and> c_str_at ''0059.99994e6'' 4 = CHR ''.'' \<and>
   latitude_from_nmea (- 999999) ''0059.99994e6'' ''S'' [] =
     (- 999999, [Color DW_COLOR_ERROR,
                 Printed ''Error: Latitude not in range of 0 to 90.\<newline>''])"
  by (simp add: decoder_eval)

text \<open>
  Claim C7. On a field that passes the structural checks, the decoders return the value
  computed from the leading digits and the parsed minutes, negated exactly when the
  hemisphere character is \<open>S\<close> (latitude) or \<open>W\<close> (longitude); an empty hemisphere
  string does not negate. A value outside the domain and a hemisphere character other
  than the two letters or NUL each append a warning to the console and change nothing
  in the value.
\<close>

theorem from_nmea_advisory:
  "(isdigit (c_str_at pstr 0) \<and> c_str_at pstr 4 = CHR ''.'' \<longrightarrow>
      latitude_from_nmea g pstr phemi con =
        (if c_str_at phemi 0 = CHR ''S'' then - latitude_field_value pstr
         else latitude_field_value pstr,
         (con @ (if latitude_field_value pstr < 0 \<or> 90 < latitude_field_value pstr
                 then [Color DW_COLOR_ERROR,
                       Printed ''Error: Latitude not in range of 0 to 90.\<newline>'']
                 else []))
         @ (if c_str_at phemi 0 \<noteq> CHR ''N'' \<and> c_str_at phemi 0 \<noteq> CHR ''S''
               \<and> c_str_at phemi 0 \<noteq> CHR 0x00
            then [Color DW_COLOR_ERROR,
                  Printed ''Error: Latitude hemisphere should be N or S.\<newline>'']
            else []))) \<and>
   (isdigit (c_str_at pstr' 0) \<and> c_str_at pstr' 5 = CHR ''.'' \<longrightarrow>
      longitude_from_nmea g pstr' phemi' con =
        (if c_str_at phemi' 0 = CHR ''W'' then - longitude_field_value pstr'
         else longitude_field_value pstr',
         (con @ (if longitude_field_value pstr' < 0 \<or> 180 < longitude_field_value pstr'
                 then [Color DW_COLOR_ERROR,
                       Printed ''Error: Longitude not in range of 0 to 180.\<newline>'']
                 else []))
         @ (if c_str_at phemi' 0 \<noteq> CHR ''E'' \<and> c_str_at phemi' 0 \<noteq> CHR ''W''
               \<and> c_str_at phemi' 0 \<noteq> CHR 0x00
            then [Color DW_COLOR_ERROR,
                  Printed ''Error: Longitude hemisphere should be E or W.\<newline>'']
            else [])))"
  using latitude_from_nmea_accepted [of pstr g phemi con]
    longitude_from_nmea_accepted [of pstr' g phemi' con]
  by simp

text \<open>
  Both warnings at once: 99 degrees 59 minutes with hemisphere \<open>X\<close>, and 181 degrees 30
  minutes with an empty hemisphere.
\<close>

theorem from_nmea_advisory_witness:
  "latitude_from_nmea (- 999999) ''9959.0000'' ''X'' [] =
     (5999 / 60,
      [Color DW_COLOR_ERROR, Printed ''Error: Latitude not in range of 0 to 90.\<newline>'',
       Color DW_COLOR_ERROR, Printed ''Error: Latitude hemisphere should be N or S.\<newline>'']) \<and>
   longitude_from_nmea (- 999999) ''18130.0000'' '''' [] =
     (363 / 2,
      [Color DW_COLOR_ERROR, Printed ''Error: Longitude not in range of 0 to 180.\<newline>''])"
proof -
  have h1: "isdigit (c_str_at ''9959.0000'' 0) \<and> c_str_at ''9959.0000'' 4 = CHR ''.''"
    by (simp add: c_str_at_def isdigit_def)
  have h2: "isdigit (c_str_at ''18130.0000'' 0) \<and> c_str_at ''18130.0000'' 5 = CHR ''.''"
    by (simp add: c_str_at_def isdigit_def)
  have v1: "latitude_field_value ''9959.0000'' = 5999 / 60"
    by (simp add: latitude_field_value_def decoder_eval)
  have v2: "longitude_field_value ''18130.0000'' = 363 / 2"
    by (simp add: longitude_field_value_def decoder_eval)
  have c: "c_str_at ''X'' 0 = CHR ''X''" "c_str_at '''' 0 = CHR 0x00"
    by (simp_all add: c_str_at_def)
  show ?thesis
    using from_nmea_advisory [where g = "- 999999" and pstr = "''9959.0000''" and phemi = "''X''"
        and con = "[]" and pstr' = "''18130.0000''" and phemi' = "''''"] h1 h2
    unfolding v1 v2 c by simp
qed

text \<open>
  Claim C8. For a numeric field that passes the structural checks, decoding with
  hemisphere \<open>S\<close> (or \<open>W\<close>) gives the negation of the value decoded with \<open>N\<close> (or
  \<open>E\<close>), and the same console.
\<close>

theorem from_nmea_hemisphere_sign:
  "(isdigit (c_str_at pstr 0) \<and> c_str_at pstr 4 = CHR ''.'' \<longrightarrow>
      (\<exists>v con'. latitude_from_nmea g pstr ''N'' con = (v, con') \<and>
                 latitude_from_nmea g pstr ''S'' con = (- v, con'))) \<and>
   (isdigit (c_str_at pstr' 0) \<and> c_str_at pstr' 5 = CHR ''.'' \<longrightarrow>
      (\<exists>v con'. longitude_from_nmea g pstr' ''E'' con = (v, con') \<and>
                 longitude_from_nmea g pstr' ''W'' con = (- v, con')))"
  using latitude_from_nmea_accepted [of pstr g "''N''" con]
    latitude_from_nmea_accepted [of pstr g "''S''" con]
    longitude_from_nmea_accepted [of pstr' g "''E''" con]
    longitude_from_nmea_accepted [of pstr' g "''W''" con]
  by (simp add: c_str_at_def)

text \<open>The fields of the spec's examples, in both hemispheres.\<close>

theorem from_nmea_hemisphere_sign_witness:
  "latitude_from_nmea (- 999999) ''4903.5000'' ''N'' [] = (5887 / 120, []) \<and>
   latitude_from_nmea (- 999999) ''4903.5000'' ''S'' [] = (- (5887 / 120), []) \<and>
   longitude_from_nmea (- 999999) ''07201.7500'' ''E'' [] = (17287 / 240, []) \<and>
   longitude_from_nmea (- 999999) ''07201.7500'' ''W'' [] = (- (17287 / 240), [])"
proof -
  have h1: "isdigit (c_str_at ''4903.5000'' 0) \<and> c_str_at ''4903.5000'' 4 = CHR ''.''"
    by (simp add: c_str_at_def isdigit_def)
  have h2: "isdigit (c_str_at ''07201.7500'' 0) \<and> c_str_at ''07201.7500'' 5 = CHR ''.''"
    by (simp add: c_str_at_def isdigit_def)
  have n1: "latitude_from_nmea (- 999999) ''4903.5000'' ''N'' [] = (5887 / 120, [])"
    by (simp add: decoder_eval)
  have n2: "longitude_from_nmea (- 999999) ''07201.7500'' ''E'' [] = (17287 / 240, [])"
    by (simp add: decoder_eval)
  show ?thesis
    using from_nmea_hemisphere_sign [where g = "- 999999" and pstr = "''4903.5000''"
        and con = "[]" and pstr' = "''07201.7500''"] h1 h2 n1 n2
    by auto
qed

end
